theory Spec2Isabelle
  imports Complex_Main "HOL-Library.Sublist"
begin

section \<open>Python values\<close>

text \<open>
  A Python \<open>str\<close> is a sequence of Unicode code points; \<open>len\<close>, indexing and slicing
  count code points. A string is therefore a list of code points, each a natural number.
  \<open>cp\<close> turns an ASCII literal into such a list.
\<close>

type_synonym pystr = "nat list"

definition cp :: "string \<Rightarrow> pystr" where
  "cp s = map of_char s"

text \<open>
  The exceptions that the modelled code can meet: an \<open>IndexError\<close> of a list or string
  index out of range, and a failure raised by a remote backend, with its message.
\<close>

datatype exn = IndexError | Raised pystr

text \<open>
  Python's slice bounds: a negative bound counts from the end, and every bound is clipped
  to the range of the sequence.
\<close>

definition py_clamp :: "int \<Rightarrow> nat \<Rightarrow> nat" where
  "py_clamp i n = (if i < 0 then nat (max 0 (i + int n)) else min (nat i) n)"

definition py_slice :: "'a list \<Rightarrow> int \<Rightarrow> int \<Rightarrow> 'a list" where
  "py_slice xs start en =
     (let s = py_clamp start (length xs); e = py_clamp en (length xs)
      in take (e - s) (drop s xs))"

text \<open>\<open>xs[i]\<close>: a negative index counts from the end; out of range raises.\<close>

definition py_index :: "'a list \<Rightarrow> int \<Rightarrow> exn + 'a" where
  "py_index xs i =
     (let n = int (length xs); j = (if i < 0 then i + n else i)
      in if 0 \<le> j \<and> j < n then Inr (xs ! nat j) else Inl IndexError)"

text \<open>
  \<open>str.strip()\<close> removes leading and trailing whitespace. The whitespace code points are
  those for which \<open>str.isspace\<close> holds.
\<close>

definition is_space :: "nat \<Rightarrow> bool" where
  "is_space c = (c \<in> set [9, 10, 11, 12, 13, 28, 29, 30, 31, 32, 133, 160, 5760,
     8192, 8193, 8194, 8195, 8196, 8197, 8198, 8199, 8200, 8201, 8202,
     8232, 8233, 8239, 8287, 12288])"

definition py_strip :: "pystr \<Rightarrow> pystr" where
  "py_strip s = rev (dropWhile is_space (rev (dropWhile is_space s)))"

section \<open>The chunker (\<^verbatim>\<open>vectorstore.py\<close>, \<open>_chunk_text\<close>)\<close>

text \<open>The test \<open>text[i] in '.!?'\<close>: full stop 46, exclamation mark 33, question mark 63.\<close>

definition is_terminal :: "nat \<Rightarrow> bool" where
  "is_terminal c = (c = 46 \<or> c = 33 \<or> c = 63)"

text \<open>
  The inner loop \<open>for i in range(en, stop, -1)\<close>: \<open>i\<close> runs from \<open>en\<close> down to
  \<open>stop + 1\<close>. At the first sentence terminator the loop breaks with the new end
  \<open>i + 1\<close>; without one it runs out and the end stays as it was.
\<close>

function sentence_search :: "pystr \<Rightarrow> int \<Rightarrow> int \<Rightarrow> exn + int option" where
  "sentence_search text i stop =
     (if stop < i then
        (case py_index text i of
           Inl e \<Rightarrow> Inl e
         | Inr c \<Rightarrow> if is_terminal c then Inr (Some (i + 1))
                    else sentence_search text (i - 1) stop)
      else Inr None)"
  by pat_completeness auto
termination
  by (relation "measure (\<lambda>(text, i, stop). nat (i - stop))") auto

text \<open>The end of the window that starts at \<open>start\<close> (lines 81 to 89).\<close>

definition window_end :: "pystr \<Rightarrow> int \<Rightarrow> int \<Rightarrow> exn + int" where
  "window_end text chunk_size start =
     (let en = start + chunk_size
      in if en < int (length text) then
           (case sentence_search text en (max (start + chunk_size div 2) (en - 100)) of
              Inl e \<Rightarrow> Inl e
            | Inr None \<Rightarrow> Inr en
            | Inr (Some en') \<Rightarrow> Inr en')
         else Inr en)"

text \<open>
  The \<open>while\<close> loop. It may run forever, so its result is an option: \<open>None\<close> is a loop
  that never returns, \<open>Some (Inl e)\<close> a raised exception, \<open>Some (Inr chunks)\<close> the
  returned list.
\<close>

partial_function (option) chunk_loop ::
  "pystr \<Rightarrow> int \<Rightarrow> int \<Rightarrow> int \<Rightarrow> pystr list \<Rightarrow> (exn + pystr list) option" where
  "chunk_loop text chunk_size overlap start chunks =
     (if start < int (length text) then
        (case window_end text chunk_size start of
           Inl e \<Rightarrow> Some (Inl e)
         | Inr en \<Rightarrow>
             (let chunk = py_strip (py_slice text start en);
                  chunks' = (if chunk \<noteq> [] then chunks @ [chunk] else chunks);
                  start' = en - overlap
              in if int (length text) \<le> start' then Some (Inr chunks')
                 else chunk_loop text chunk_size overlap start' chunks'))
      else Some (Inr chunks))"

declare chunk_loop.simps [code]

definition chunk_text :: "pystr \<Rightarrow> int \<Rightarrow> int \<Rightarrow> (exn + pystr list) option" where
  "chunk_text text chunk_size overlap =
     (if int (length text) \<le> chunk_size then Some (Inr [text])
      else chunk_loop text chunk_size overlap 0 [])"

text \<open>
  Further slices: \<open>xs[start:]\<close>, and \<open>sep.join(parts)\<close>.
\<close>

definition py_slice_from :: "'a list \<Rightarrow> int \<Rightarrow> 'a list" where
  "py_slice_from xs start = drop (py_clamp start (length xs)) xs"

fun py_join :: "pystr \<Rightarrow> pystr list \<Rightarrow> pystr" where
  "py_join sep [] = []"
| "py_join sep [x] = x"
| "py_join sep (x # y # ys) = x @ sep @ py_join sep (y # ys)"

text \<open>\<open>str(i)\<close> of a non-negative integer: its decimal digits, \<open>0\<close> being code point 48.\<close>

fun str_of_nat :: "nat \<Rightarrow> pystr" where
  "str_of_nat n = (if n < 10 then [48 + n] else str_of_nat (n div 10) @ [48 + n mod 10])"

declare str_of_nat.simps [simp del]

text \<open>\<open>str(e)\<close> of a caught exception.\<close>

fun exn_str :: "exn \<Rightarrow> pystr" where
  "exn_str IndexError = cp ''list index out of range''"
| "exn_str (Raised msg) = msg"

section \<open>The vector store (\<^verbatim>\<open>vectorstore.py\<close>)\<close>

text \<open>
  The metadata dictionary of an indexed chunk, with the keys that the service reads, and a
  search result \<open>{content, metadata, similarity}\<close>. The type \<open>'f\<close> stands for the
  floating-point numbers of Python and numpy.
\<close>

record metadata =
  url :: pystr
  title :: pystr
  description :: pystr

record 'f search_result =
  content :: pystr
  metadata :: metadata
  similarity :: 'f

text \<open>
  What \<open>collection.query\<close> returns for the single query embedding that \<open>search\<close>
  passes: the three parallel lists \<open>results['documents'][0]\<close>,
  \<open>results['metadatas'][0]\<close> and \<open>results['distances'][0]\<close>.
\<close>

record 'f query_result =
  documents :: "pystr list"
  metadatas :: "metadata list"
  distances :: "'f list"

text \<open>
  The collaborators of the vector store are not part of the repository and are parameters:
  \<^item> \<open>embed_content text task_type\<close> is \<open>genai.embed_content(...)['embedding']\<close>, which
    returns a vector or raises;
  \<^item> \<open>np_norm\<close> is \<open>np.linalg.norm\<close> and \<open>np_divide\<close> the division of one array
    element by the norm; with numpy's default error state neither raises (a division by
    zero gives a warning and the IEEE result);
  \<^item> \<open>collection_query c embedding n_results\<close> is \<open>collection.query\<close> on an index
    with the contents \<open>c\<close> (of an opaque type \<open>'c\<close>), which returns or raises.
\<close>

record ('f, 'c) vectorstore =
  embed_content :: "pystr \<Rightarrow> pystr \<Rightarrow> exn + 'f list"
  np_norm :: "'f list \<Rightarrow> 'f"
  np_divide :: "'f \<Rightarrow> 'f \<Rightarrow> 'f"
  collection_query :: "'c \<Rightarrow> 'f list \<Rightarrow> int \<Rightarrow> exn + 'f query_result"

text \<open>
  \<open>_get_embedding\<close>: every exception inside the \<open>try\<close> block gives \<open>None\<close>;
  otherwise the vector divided by its norm is returned.
\<close>

definition get_embedding :: "('f, 'c) vectorstore \<Rightarrow> pystr \<Rightarrow> pystr \<Rightarrow> 'f list option" where
  "get_embedding vs text task_type =
     (case embed_content vs text task_type of
        Inl e \<Rightarrow> None
      | Inr embedding \<Rightarrow>
          Some (map (\<lambda>x. np_divide vs x (np_norm vs embedding)) embedding))"

text \<open>
  The loop of \<open>search\<close> over \<open>range(len(results['documents'][0]))\<close>. An index beyond
  one of the three lists raises \<open>IndexError\<close>.
\<close>

fun search_loop ::
  "('f::{one,minus}) query_result \<Rightarrow> nat list \<Rightarrow> 'f search_result list
     \<Rightarrow> exn + 'f search_result list" where
  "search_loop results [] search_results = Inr search_results"
| "search_loop results (i # rest) search_results =
     (case py_index (documents results) (int i) of
        Inl e \<Rightarrow> Inl e
      | Inr doc \<Rightarrow>
          (case py_index (metadatas results) (int i) of
             Inl e \<Rightarrow> Inl e
           | Inr md \<Rightarrow>
               (case py_index (distances results) (int i) of
                  Inl e \<Rightarrow> Inl e
                | Inr distance \<Rightarrow>
                    search_loop results rest
                      (search_results @
                         [\<lparr>content = doc, metadata = md, similarity = 1 - distance\<rparr>]))))"

definition search ::
  "('f::{one,minus}, 'c) vectorstore \<Rightarrow> 'c \<Rightarrow> pystr \<Rightarrow> int
     \<Rightarrow> exn + 'f search_result list" where
  "search vs coll query n_results =
     (case get_embedding vs query (cp ''retrieval_query'') of
        None \<Rightarrow> Inr []
      | Some query_embedding \<Rightarrow>
          (case collection_query vs coll query_embedding n_results of
             Inl e \<Rightarrow> Inl e
           | Inr results \<Rightarrow>
               search_loop results [0..<length (documents results)] []))"

text \<open>
  A model of the float64 values that numpy computes with, for evaluating
  \<open>_get_embedding\<close> on a concrete vector: a finite value, an infinity or NaN. The
  division follows IEEE 754 as numpy applies it by default (no exception; \<open>0/0\<close> is NaN
  and \<open>x/0\<close> an infinity); the rounding of a finite quotient is left out.
\<close>

datatype float64 = Finite real | PosInf | NegInf | NaN

fun ieee_divide :: "float64 \<Rightarrow> float64 \<Rightarrow> float64" where
  "ieee_divide (Finite x) (Finite y) =
     (if y = 0 then (if x = 0 then NaN else if 0 < x then PosInf else NegInf)
      else Finite (x / y))"
| "ieee_divide (Finite x) PosInf = Finite 0"
| "ieee_divide (Finite x) NegInf = Finite 0"
| "ieee_divide PosInf (Finite y) = (if 0 \<le> y then PosInf else NegInf)"
| "ieee_divide NegInf (Finite y) = (if 0 \<le> y then NegInf else PosInf)"
| "ieee_divide x y = NaN"

fun l2_norm :: "float64 list \<Rightarrow> float64" where
  "l2_norm v =
     (if NaN \<in> set v then NaN
      else if PosInf \<in> set v \<or> NegInf \<in> set v then PosInf
      else Finite (sqrt (\<Sum>x\<leftarrow>v. (case x of Finite r \<Rightarrow> r * r | _ \<Rightarrow> 0))))"

section \<open>The RAG service (\<^verbatim>\<open>rag_service.py\<close>)\<close>

text \<open>
  The string literals of the service, as code points. They are Russian sentences: the
  labels of a context block (source, title, URL, description, content), the parts of the
  prompt, the two greeting instructions (greet the client in the first message; do not
  greet again), the labels of the history (client, assistant), the prefix of the error
  answer (an error occurred while processing your request) and the fixed answer when
  nothing relevant was found.
\<close>

definition source_label :: pystr where
  "source_label =
    [10, 1048, 1089, 1090, 1086, 1095, 1085, 1080, 1082, 32]"

definition title_label :: pystr where
  "title_label =
    [58, 10, 1053, 1072, 1079, 1074, 1072, 1085, 1080, 1077, 58, 32]"

definition url_label :: pystr where
  "url_label =
    [10, 85, 82, 76, 58, 32]"

definition description_label :: pystr where
  "description_label =
    [10, 1054, 1087, 1080, 1089, 1072, 1085, 1080, 1077, 58, 32]"

definition content_label :: pystr where
  "content_label =
    [10, 1050, 1086, 1085, 1090, 1077, 1085, 1090, 58, 32]"

definition prompt_head :: pystr where
  "prompt_head =
    [1058, 1099, 32, 45, 32, 1072, 1089, 1089, 1080, 1089, 1090, 1077, 1085, 1090, 32, 1082,
     1086, 1084, 1087, 1072, 1085, 1080, 1080, 32, 69, 79, 82, 65, 44, 32, 1082, 1086, 1090,
     1086, 1088, 1072, 1103, 32, 1079, 1072, 1085, 1080, 1084, 1072, 1077, 1090, 1089, 1103,
     32, 1088, 1072, 1079, 1088, 1072, 1073, 1086, 1090, 1082, 1086, 1081, 32, 1088, 1077,
     1096, 1077, 1085, 1080, 1081, 32, 1085, 1072, 32, 1086, 1089, 1085, 1086, 1074, 1077,
     32, 1080, 1089, 1082, 1091, 1089, 1089, 1090, 1074, 1077, 1085, 1085, 1086, 1075, 1086,
     32, 1080, 1085, 1090, 1077, 1083, 1083, 1077, 1082, 1090, 1072, 46, 10, 10, 1050, 1054,
     1053, 1058, 1045, 1050, 1057, 1058, 32, 40, 1080, 1085, 1092, 1086, 1088, 1084, 1072,
     1094, 1080, 1103, 32, 1086, 32, 1087, 1088, 1086, 1077, 1082, 1090, 1072, 1093, 32, 69,
     79, 82, 65, 41, 58, 10]"

definition prompt_question :: pystr where
  "prompt_question =
    [10, 10, 1058, 1045, 1050, 1059, 1065, 1048, 1049, 32, 1042, 1054, 1055, 1056, 1054,
     1057, 32, 1050, 1051, 1048, 1045, 1053, 1058, 1040, 58, 32]"

definition prompt_instructions :: pystr where
  "prompt_instructions =
    [10, 10, 1048, 1053, 1057, 1058, 1056, 1059, 1050, 1062, 1048, 1048, 58, 10, 49, 46, 32]"

definition prompt_tail :: pystr where
  "prompt_tail =
    [10, 50, 46, 32, 1041, 1091, 1076, 1100, 32, 1082, 1088, 1072, 1090, 1086, 1082, 32,
     1080, 32, 1082, 1086, 1085, 1082, 1088, 1077, 1090, 1077, 1085, 32, 45, 32, 50, 45, 51,
     32, 1072, 1073, 1079, 1072, 1094, 1072, 32, 1084, 1072, 1082, 1089, 1080, 1084, 1091,
     1084, 10, 51, 46, 32, 1048, 1089, 1087, 1086, 1083, 1100, 1079, 1091, 1081, 32, 1080,
     1085, 1092, 1086, 1088, 1084, 1072, 1094, 1080, 1102, 32, 1080, 1079, 32, 1082, 1086,
     1085, 1090, 1077, 1082, 1089, 1090, 1072, 32, 1080, 32, 1091, 1095, 1080, 1090, 1099,
     1074, 1072, 1081, 32, 1080, 1089, 1090, 1086, 1088, 1080, 1102, 32, 1088, 1072, 1079,
     1075, 1086, 1074, 1086, 1088, 1072, 10, 52, 46, 32, 1055, 1088, 1080, 1074, 1086, 1076,
     1080, 32, 1082, 1086, 1085, 1082, 1088, 1077, 1090, 1085, 1099, 1077, 32, 1087, 1088,
     1080, 1084, 1077, 1088, 1099, 32, 1087, 1088, 1086, 1077, 1082, 1090, 1086, 1074, 10,
     53, 46, 32, 1045, 1089, 1083, 1080, 32, 1085, 1077, 1090, 32, 1088, 1077, 1083, 1077,
     1074, 1072, 1085, 1090, 1085, 1086, 1081, 32, 1080, 1085, 1092, 1086, 1088, 1084, 1072,
     1094, 1080, 1080, 44, 32, 1095, 1077, 1089, 1090, 1085, 1086, 32, 1089, 1082, 1072,
     1078, 1080, 32, 1086, 1073, 32, 1101, 1090, 1086, 1084, 10, 54, 46, 32, 1054, 1090,
     1074, 1077, 1095, 1072, 1081, 32, 1077, 1089, 1090, 1077, 1089, 1090, 1074, 1077, 1085,
     1085, 1086, 32, 1080, 32, 1076, 1088, 1091, 1078, 1077, 1083, 1102, 1073, 1085, 1086,
     10, 55, 46, 32, 1054, 1090, 1074, 1077, 1095, 1072, 1081, 32, 1085, 1072, 32, 1088,
     1091, 1089, 1089, 1082, 1086, 1084, 32, 1103, 1079, 1099, 1082, 1077, 10, 10, 1054,
     1058, 1042, 1045, 1058, 58]"

definition history_label :: pystr where
  "history_label =
    [10, 1048, 1057, 1058, 1054, 1056, 1048, 1071, 32, 1056, 1040, 1047, 1043, 1054, 1042,
     1054, 1056, 1040, 58, 10]"

definition greet_first :: pystr where
  "greet_first =
    [1055, 1086, 1087, 1088, 1080, 1074, 1077, 1090, 1089, 1090, 1074, 1091, 1081, 32, 1082,
     1083, 1080, 1077, 1085, 1090, 1072, 32, 1074, 32, 1087, 1077, 1088, 1074, 1086, 1084,
     32, 1089, 1086, 1086, 1073, 1097, 1077, 1085, 1080, 1080]"

definition greet_again :: pystr where
  "greet_again =
    [1053, 1077, 32, 1079, 1076, 1086, 1088, 1086, 1074, 1072, 1081, 1089, 1103, 32, 1087,
     1086, 1074, 1090, 1086, 1088, 1085, 1086]"

definition client_label :: pystr where
  "client_label =
    [1050, 1083, 1080, 1077, 1085, 1090, 58, 32]"

definition assistant_label :: pystr where
  "assistant_label =
    [1040, 1089, 1089, 1080, 1089, 1090, 1077, 1085, 1090, 58, 32]"

definition error_prefix :: pystr where
  "error_prefix =
    [1055, 1088, 1086, 1080, 1079, 1086, 1096, 1083, 1072, 32, 1086, 1096, 1080, 1073, 1082,
     1072, 32, 1087, 1088, 1080, 32, 1086, 1073, 1088, 1072, 1073, 1086, 1090, 1082, 1077,
     32, 1074, 1072, 1096, 1077, 1075, 1086, 32, 1079, 1072, 1087, 1088, 1086, 1089, 1072,
     58, 32]"

definition no_info_answer :: pystr where
  "no_info_answer =
    [1048, 1079, 1074, 1080, 1085, 1080, 1090, 1077, 44, 32, 1103, 32, 1085, 1077, 32, 1085,
     1072, 1096, 1077, 1083, 32, 1088, 1077, 1083, 1077, 1074, 1072, 1085, 1090, 1085, 1086,
     1081, 32, 1080, 1085, 1092, 1086, 1088, 1084, 1072, 1094, 1080, 1080, 32, 1076, 1083,
     1103, 32, 1086, 1090, 1074, 1077, 1090, 1072, 32, 1085, 1072, 32, 1074, 1072, 1096, 32,
     1074, 1086, 1087, 1088, 1086, 1089, 46]"

text \<open>\<open>_build_context\<close>: one block per result, numbered from 1 by \<open>enumerate\<close>.\<close>

definition context_part :: "nat \<Rightarrow> 'f search_result \<Rightarrow> pystr" where
  "context_part i result =
     (let md = metadata result
      in source_label @ str_of_nat i @ title_label @ title md @ url_label @ url md @
         description_label @ description md @ content_label @ content result @ [10])"

definition build_context :: "'f search_result list \<Rightarrow> pystr" where
  "build_context search_results =
     py_join [10]
       (map (\<lambda>(i, result). context_part i result)
          (zip [1..<Suc (length search_results)] search_results))"

definition build_prompt :: "pystr \<Rightarrow> pystr \<Rightarrow> bool \<Rightarrow> pystr \<Rightarrow> pystr" where
  "build_prompt question context is_first_message chat_history =
     (let greeting_instruction = (if is_first_message then greet_first else greet_again);
          history_context =
            (if chat_history \<noteq> [] then history_label @ chat_history @ [10] else [])
      in prompt_head @ context @ history_context @ prompt_question @ question @
         prompt_instructions @ greeting_instruction @ prompt_tail)"

text \<open>A turn of a session, and the session memory \<open>self.sessions\<close>.\<close>

record turn =
  question :: pystr
  answer :: pystr
  timestamp :: real

type_synonym sessions = "pystr \<rightharpoonup> turn list"

text \<open>A source citation \<open>{title, url, description}\<close> returned to the caller.\<close>

record source =
  src_title :: pystr
  src_url :: pystr
  src_description :: pystr

text \<open>
  The state that a request can reach: the session memory and the contents of the
  vector index.
\<close>

record 'c rag_state =
  sessions :: sessions
  collection :: 'c

text \<open>
  \<open>_get_session_history\<close>. \<open>last_messages\<close> is the slice
  \<open>self.sessions[session_id][-max_messages:]\<close>.
\<close>

definition last_messages :: "turn list \<Rightarrow> int \<Rightarrow> turn list" where
  "last_messages turns max_messages = py_slice_from turns (- max_messages)"

definition get_session_history :: "sessions \<Rightarrow> pystr \<Rightarrow> int \<Rightarrow> pystr" where
  "get_session_history sess session_id max_messages =
     (case sess session_id of
        None \<Rightarrow> []
      | Some turns \<Rightarrow>
          (let messages = last_messages turns max_messages
           in py_join [10]
                (concat (map (\<lambda>msg. [client_label @ question msg,
                                       assistant_label @ py_slice (answer msg) 0 200 @ cp ''...''])
                           messages))))"

text \<open>\<open>_save_to_session\<close>; \<open>now\<close> is the value of \<open>time.time()\<close>.\<close>

definition save_to_session :: "sessions \<Rightarrow> pystr \<Rightarrow> pystr \<Rightarrow> pystr \<Rightarrow> real \<Rightarrow> sessions" where
  "save_to_session sess session_id q a now =
     (let sess1 = (if session_id \<notin> dom sess then sess(session_id \<mapsto> []) else sess);
          turns = (case sess1 session_id of None \<Rightarrow> [] | Some ts \<Rightarrow> ts) @
                    [\<lparr>question = q, answer = a, timestamp = now\<rparr>];
          sess2 = sess1(session_id \<mapsto> turns)
      in if 10 < length turns then sess2(session_id \<mapsto> py_slice_from turns (- 10))
         else sess2)"

text \<open>\<open>_extract_sources\<close>: the loop with its two accumulators.\<close>

fun extract_loop :: "'f search_result list \<Rightarrow> source list \<Rightarrow> pystr set \<Rightarrow> source list" where
  "extract_loop [] sources seen_urls = sources"
| "extract_loop (result # rest) sources seen_urls =
     (let md = metadata result; u = url md
      in if u \<notin> seen_urls then
           extract_loop rest
             (sources @ [\<lparr>src_title = title md, src_url = u, src_description = description md\<rparr>])
             (insert u seen_urls)
         else extract_loop rest sources seen_urls)"

definition extract_sources :: "'f search_result list \<Rightarrow> source list" where
  "extract_sources search_results = extract_loop search_results [] {}"

text \<open>
  The first-message test of \<open>get_answer\<close>:
  \<open>session_id not in self.sessions or len(self.sessions[session_id]) == 0\<close>.
\<close>

definition is_first_message :: "sessions \<Rightarrow> pystr \<Rightarrow> bool" where
  "is_first_message sess session_id =
     (case sess session_id of None \<Rightarrow> True | Some turns \<Rightarrow> length turns = 0)"

text \<open>
  \<open>get_answer\<close>. \<open>generate prompt\<close> is \<open>self.model.generate_content(prompt).text\<close>,
  which returns a text or raises. \<open>get_answer_try\<close> is the body of the \<open>try\<close> block:
  it gives the state it has reached, the value that it has bound to \<open>is_first_message\<close>
  and passed to \<open>_build_prompt\<close> (\<open>None\<close> when the block is left before that
  assignment), and either the exception that left the block or the returned pair.
\<close>

definition get_answer_try ::
  "('f::{one,minus}, 'c) vectorstore \<Rightarrow> (pystr \<Rightarrow> exn + pystr) \<Rightarrow> real \<Rightarrow> 'c rag_state
     \<Rightarrow> pystr \<Rightarrow> pystr \<Rightarrow> int
     \<Rightarrow> 'c rag_state \<times> bool option \<times> (exn + pystr \<times> source list)" where
  "get_answer_try vs generate now s q session_id max_sources =
     (case search vs (collection s) q max_sources of
        Inl e \<Rightarrow> (s, None, Inl e)
      | Inr search_results \<Rightarrow>
          if search_results = [] then
            (s\<lparr>sessions := save_to_session (sessions s) session_id q no_info_answer now\<rparr>,
             None, Inr (no_info_answer, []))
          else
            (let context = build_context search_results;
                 first = is_first_message (sessions s) session_id;
                 chat_history = get_session_history (sessions s) session_id 4;
                 prompt = build_prompt q context first chat_history
             in case generate prompt of
                  Inl e \<Rightarrow> (s, Some first, Inl e)
                | Inr response_text \<Rightarrow>
                    (let a = py_strip response_text;
                         s' = s\<lparr>sessions := save_to_session (sessions s) session_id q a now\<rparr>;
                         sources = extract_sources search_results
                     in (s', Some first, Inr (a, sources)))))"

definition get_answer ::
  "('f::{one,minus}, 'c) vectorstore \<Rightarrow> (pystr \<Rightarrow> exn + pystr) \<Rightarrow> real \<Rightarrow> 'c rag_state
     \<Rightarrow> pystr \<Rightarrow> pystr \<Rightarrow> int \<Rightarrow> 'c rag_state \<times> pystr \<times> source list" where
  "get_answer vs generate now s q session_id max_sources =
     (case get_answer_try vs generate now s q session_id max_sources of
        (s1, first, Inr result) \<Rightarrow> (s1, result)
      | (s1, first, Inl e) \<Rightarrow>
          (let error_answer = error_prefix @ exn_str e
           in (s1\<lparr>sessions := save_to_session (sessions s1) session_id q error_answer now\<rparr>,
               error_answer, [])))"

section \<open>Notions used to state the properties\<close>

subsection \<open>Chunks\<close>

text \<open>
  What the loop appends for a list of windows \<open>text[start:end]\<close>: each window is
  stripped and an empty result is dropped.
\<close>

definition trimmed :: "pystr list \<Rightarrow> pystr list" where
  "trimmed ws = filter (\<lambda>c. c \<noteq> []) (map py_strip ws)"

text \<open>
  The concatenation of a list of chunks once the first \<open>k\<close> characters, the overlap
  with the chunk before, are removed from every chunk after the first.
\<close>

definition remove_overlaps :: "nat \<Rightarrow> 'a list list \<Rightarrow> 'a list" where
  "remove_overlaps k ws = (case ws of [] \<Rightarrow> [] | w # rest \<Rightarrow> w @ concat (map (drop k) rest))"

subsection \<open>Sessions\<close>

text \<open>The turn list of a session, empty for a session that has none.\<close>

definition stored_turns :: "sessions \<Rightarrow> pystr \<Rightarrow> turn list" where
  "stored_turns sess session_id = (case sess session_id of None \<Rightarrow> [] | Some ts \<Rightarrow> ts)"

text \<open>The last \<open>n\<close> elements of a list, in their order.\<close>

definition most_recent :: "nat \<Rightarrow> 'a list \<Rightarrow> 'a list" where
  "most_recent n xs = drop (length xs - n) xs"

text \<open>
  A call of \<open>_save_to_session\<close> with its arguments and the clock value it reads, and
  a sequence of such calls.
\<close>

record append_call =
  call_session :: pystr
  call_question :: pystr
  call_answer :: pystr
  call_time :: real

fun run_appends :: "sessions \<Rightarrow> append_call list \<Rightarrow> sessions" where
  "run_appends sess [] = sess"
| "run_appends sess (c # cs) =
     run_appends
       (save_to_session sess (call_session c) (call_question c) (call_answer c) (call_time c)) cs"

text \<open>The turns that a sequence of calls appends to one session, in the order of the calls.\<close>

definition appended_turns :: "pystr \<Rightarrow> append_call list \<Rightarrow> turn list" where
  "appended_turns session_id cs =
     map (\<lambda>c. \<lparr>question = call_question c, answer = call_answer c, timestamp = call_time c\<rparr>)
       (filter (\<lambda>c. call_session c = session_id) cs)"

text \<open>The lines that \<open>_get_session_history\<close> joins for a list of messages.\<close>

definition history_lines :: "turn list \<Rightarrow> pystr list" where
  "history_lines messages =
     concat (map (\<lambda>msg. [client_label @ question msg,
                            assistant_label @ py_slice (answer msg) 0 200 @ cp ''...''])
               messages)"

subsection \<open>Requests\<close>

text \<open>
  A call of \<open>get_answer\<close>: its arguments and what the collaborators do during the
  call (the vector store, the generative model, the clock). \<open>run_requests\<close> serves
  a sequence of calls one after the other; \<open>init_state\<close> is the state after
  \<open>__init__\<close>, with no session.
\<close>

record ('f, 'c) request =
  req_vectorstore :: "('f, 'c) vectorstore"
  req_generate :: "pystr \<Rightarrow> exn + pystr"
  req_now :: real
  req_question :: pystr
  req_session :: pystr
  req_max_sources :: int

fun run_requests :: "'c rag_state \<Rightarrow> ('f::{one,minus}, 'c) request list \<Rightarrow> 'c rag_state" where
  "run_requests s [] = s"
| "run_requests s (r # rs) =
     run_requests
       (fst (get_answer (req_vectorstore r) (req_generate r) (req_now r) s
               (req_question r) (req_session r) (req_max_sources r))) rs"

definition init_state :: "'c \<Rightarrow> 'c rag_state" where
  "init_state c = \<lparr>sessions = Map.empty, collection = c\<rparr>"

text \<open>
  The first-message flag of a call of \<open>get_answer\<close>: the value that the call binds to
  \<open>is_first_message\<close>, if it gets that far. \<open>request_flag s rs i\<close> is the flag of the
  \<open>i\<close>-th call of the sequence \<open>rs\<close> served from the state \<open>s\<close>.
\<close>

definition get_answer_flag ::
  "('f::{one,minus}, 'c) vectorstore \<Rightarrow> (pystr \<Rightarrow> exn + pystr) \<Rightarrow> real \<Rightarrow> 'c rag_state
     \<Rightarrow> pystr \<Rightarrow> pystr \<Rightarrow> int \<Rightarrow> bool option" where
  "get_answer_flag vs generate now s q session_id max_sources =
     fst (snd (get_answer_try vs generate now s q session_id max_sources))"

definition request_flag ::
  "'c rag_state \<Rightarrow> ('f::{one,minus}, 'c) request list \<Rightarrow> nat \<Rightarrow> bool option" where
  "request_flag s rs i =
     (let r = rs ! i
      in get_answer_flag (req_vectorstore r) (req_generate r) (req_now r)
           (run_requests s (take i rs)) (req_question r) (req_session r) (req_max_sources r))"

text \<open>The prompt that \<open>get_answer\<close> passes to the generative model.\<close>

definition request_prompt :: "sessions \<Rightarrow> pystr \<Rightarrow> pystr \<Rightarrow> 'f search_result list \<Rightarrow> pystr" where
  "request_prompt sess q sid rs =
     build_prompt q (build_context rs) (is_first_message sess sid) (get_session_history sess sid 4)"

text \<open>The pair that \<open>get_answer\<close> returns, path by path.\<close>

definition answer_of ::
  "('f::{one,minus}, 'c) vectorstore \<Rightarrow> (pystr \<Rightarrow> exn + pystr) \<Rightarrow> 'c rag_state \<Rightarrow> pystr \<Rightarrow> pystr \<Rightarrow> int
     \<Rightarrow> pystr \<times> source list" where
  "answer_of vs generate s q sid n =
     (case search vs (collection s) q n of
        Inl e \<Rightarrow> (error_prefix @ exn_str e, [])
      | Inr rs \<Rightarrow>
          if rs = [] then (no_info_answer, [])
          else (case generate (request_prompt (sessions s) q sid rs) of
                  Inl e \<Rightarrow> (error_prefix @ exn_str e, [])
                | Inr response_text \<Rightarrow> (py_strip response_text, extract_sources rs)))"

subsection \<open>Search results and citations\<close>

text \<open>The search result made of the \<open>i\<close>-th entries of the three lists of the index.\<close>

definition result_at :: "('f::{one,minus}) query_result \<Rightarrow> nat \<Rightarrow> 'f search_result" where
  "result_at results i =
     \<lparr>content = documents results ! i, metadata = metadatas results ! i,
      similarity = 1 - distances results ! i\<rparr>"

text \<open>The citation of a search result.\<close>

definition citation :: "'f search_result \<Rightarrow> source" where
  "citation r =
     \<lparr>src_title = title (metadata r), src_url = url (metadata r),
      src_description = description (metadata r)\<rparr>"

text \<open>
  The results whose url does not occur at an earlier position of the list, in the order of
  the list.
\<close>

definition first_occurrences :: "'f search_result list \<Rightarrow> 'f search_result list" where
  "first_occurrences rs =
     map (\<lambda>i. rs ! i)
       (filter (\<lambda>i. url (metadata (rs ! i)) \<notin> set (map (\<lambda>r. url (metadata r)) (take i rs)))
          [0..<length rs])"

text \<open>The results that the loop of \<open>_extract_sources\<close> keeps when it starts with \<open>seen\<close>.\<close>

fun unseen :: "pystr set \<Rightarrow> 'f search_result list \<Rightarrow> 'f search_result list" where
  "unseen seen [] = []"
| "unseen seen (r # rs) =
     (if url (metadata r) \<in> seen then unseen seen rs
      else r # unseen (insert (url (metadata r)) seen) rs)"

section \<open>Concrete inputs\<close>

text \<open>
  Inputs on which the properties below are evaluated: texts for the chunker, a vector store
  over the reals with two indexed chunks of one case, a vector store whose backend returns
  the zero vector, a generative model that fails, and sequences of calls.
\<close>

definition stuck_text :: pystr where
  "stuck_text = cp ''aaaa.aaaaa''"

definition tail_text :: pystr where
  "tail_text = cp ''aaaaaaaaaaa.aa''"

definition spaced_text :: pystr where
  "spaced_text = cp ''ab  cdef''"

definition sentence_text :: pystr where
  "sentence_text = cp ''One. Two! Three? Four.''"

definition plain_text :: pystr where
  "plain_text = replicate 2500 97"

definition padded_text :: pystr where
  "padded_text = replicate 2400 97 @ replicate 100 32"

definition fifteen_appends :: "append_call list" where
  "fifteen_appends =
     map (\<lambda>n. \<lparr>call_session = cp ''s'', call_question = str_of_nat n, call_answer = cp ''a'',
                 call_time = real n\<rparr>) [0..<15]"

definition ex_result :: "pystr \<Rightarrow> pystr \<Rightarrow> real search_result" where
  "ex_result u t = \<lparr>content = cp ''c'', metadata = \<lparr>url = u, title = t, description = cp ''d''\<rparr>, similarity = 0\<rparr>"

definition two_chunks :: "pystr list" where
  "two_chunks = [cp ''d1'', cp ''d2'']"

definition small_index :: "(real, pystr list) vectorstore" where
  "small_index =
     \<lparr>embed_content = (\<lambda>t task. if t = [] then Inl (Raised (cp ''empty'')) else Inr [3, 4]),
      np_norm = (\<lambda>v. 5), np_divide = (\<lambda>x y. x / y),
      collection_query = (\<lambda>c e k. Inr \<lparr>documents = c,
         metadatas = [\<lparr>url = cp ''u1'', title = cp ''t1'', description = cp ''e1''\<rparr>,
                      \<lparr>url = cp ''u1'', title = cp ''t2'', description = cp ''e2''\<rparr>],
         distances = [1/4, 1/2]\<rparr>)\<rparr>"

definition zero_embedding :: "(float64, 'c) vectorstore \<Rightarrow> (float64, 'c) vectorstore" where
  "zero_embedding vs =
     vs\<lparr>embed_content := (\<lambda>t task. Inr [Finite 0, Finite 0, Finite 0]),
        np_norm := l2_norm, np_divide := ieee_divide\<rparr>"

definition failing_model :: "pystr \<Rightarrow> exn + pystr" where
  "failing_model prompt = Inl (Raised (cp ''timeout''))"

definition other_session :: "pystr list rag_state" where
  "other_session =
     \<lparr>sessions = [cp ''other'' \<mapsto> [\<lparr>question = cp ''q0'', answer = cp ''a0'', timestamp = 1\<rparr>]],
      collection = two_chunks\<rparr>"

definition two_requests :: "(real, pystr list) request list" where
  "two_requests =
     [\<lparr>req_vectorstore = small_index, req_generate = failing_model, req_now = 1,
       req_question = [], req_session = cp ''s'', req_max_sources = 5\<rparr>,
      \<lparr>req_vectorstore = small_index, req_generate = failing_model, req_now = 2,
       req_question = cp ''q'', req_session = cp ''s'', req_max_sources = 5\<rparr>]"

definition asked_twice :: "(real, pystr list) request list" where
  "asked_twice =
     [\<lparr>req_vectorstore = small_index, req_generate = failing_model, req_now = 1,
       req_question = cp ''q'', req_session = cp ''s'', req_max_sources = 5\<rparr>,
      \<lparr>req_vectorstore = small_index, req_generate = failing_model, req_now = 2,
       req_question = cp ''q'', req_session = cp ''s'', req_max_sources = 5\<rparr>]"

section \<open>Slices, strips and the last elements of a list\<close>

lemma py_slice_nat:
  "py_slice xs (int a) (int b) = take (min b (length xs) - a) (drop a xs)"
  by (cases "a \<le> length xs") (simp_all add: py_slice_def py_clamp_def min_def)

lemma py_index_nat: "0 \<le> i \<Longrightarrow> i < int (length xs) \<Longrightarrow> py_index xs i = Inr (xs ! nat i)"
  by (simp add: py_index_def)

lemma py_index_in_range: "i < length xs \<Longrightarrow> py_index xs (int i) = Inr (xs ! i)"
  by (simp add: py_index_def)

lemma py_slice_from_neg:
  "0 \<le> k \<Longrightarrow> py_slice_from xs (- k) = (if k = 0 then xs else most_recent (nat k) xs)"
  by (auto simp: py_slice_from_def py_clamp_def most_recent_def max_def nat_diff_distrib' intro: arg_cong[where f="\<lambda>n. drop n xs"])

lemma take_drop_glue:
  "a \<le> b \<Longrightarrow> take (min b (length xs) - a) (drop a xs) @ drop b xs = drop a xs"
proof (cases "b \<le> length xs")
  case True
  assume "a \<le> b"
  then have "drop b xs = drop (b - a) (drop a xs)" by simp
  with True show ?thesis by (simp del: drop_drop)
next
  case False
  then show ?thesis by simp
qed

lemma length_py_strip: "length (py_strip w) \<le> length w"
proof -
  have "length (py_strip w) \<le> length (dropWhile is_space w)"
    by (simp add: py_strip_def length_dropWhile_le del: length_rev)
      (metis length_dropWhile_le length_rev)
  also have "\<dots> \<le> length w" by (rule length_dropWhile_le)
  finally show ?thesis .
qed

lemma dropWhile_none: "\<forall>c\<in>set w. \<not> P c \<Longrightarrow> dropWhile P w = w"
  by (cases w) simp_all

lemma py_strip_no_space: "\<forall>c\<in>set w. \<not> is_space c \<Longrightarrow> py_strip w = w"
  by (simp add: py_strip_def dropWhile_none)

lemma py_strip_eq_Nil: "py_strip w = [] \<longleftrightarrow> (\<forall>c\<in>set w. is_space c)"
proof
  assume "py_strip w = []"
  then have "dropWhile is_space (rev (dropWhile is_space w)) = []" by (simp add: py_strip_def)
  then have a: "\<forall>c\<in>set (dropWhile is_space w). is_space c"
    by (simp add: dropWhile_eq_Nil_conv)
  have "dropWhile is_space w = []"
  proof (rule ccontr)
    assume ne: "dropWhile is_space w \<noteq> []"
    then have "\<not> is_space (hd (dropWhile is_space w))" by (rule hd_dropWhile)
    moreover have "hd (dropWhile is_space w) \<in> set (dropWhile is_space w)" using ne by simp
    ultimately show False using a by blast
  qed
  then show "\<forall>c\<in>set w. is_space c" by (simp only: dropWhile_eq_Nil_conv)
next
  assume "\<forall>c\<in>set w. is_space c"
  then have d: "dropWhile is_space w = []" by (simp only: dropWhile_eq_Nil_conv)
  show "py_strip w = []" unfolding py_strip_def d by simp
qed

lemma trimmed_append: "trimmed (xs @ ys) = trimmed xs @ trimmed ys"
  by (simp add: trimmed_def)

lemma trimmed_lengths:
  "\<forall>w\<in>set ws. int (length w) \<le> n \<Longrightarrow> \<forall>c\<in>set (trimmed ws). int (length c) \<le> n"
proof -
  assume a: "\<forall>w\<in>set ws. int (length w) \<le> n"
  have "int (length (py_strip w)) \<le> n" if "w \<in> set ws" for w
    using a that length_py_strip[of w] by fastforce
  then show ?thesis by (auto simp: trimmed_def)
qed

lemma trimmed_id:
  assumes "\<forall>w\<in>set ws. w \<noteq> [] \<and> (\<forall>c\<in>set w. \<not> is_space c)"
  shows "trimmed ws = ws"
proof -
  have "map py_strip ws = ws"
    using assms by (simp add: map_idI py_strip_no_space)
  then show ?thesis using assms by (simp add: trimmed_def)
qed

lemma trimmed_all_kept:
  "\<forall>w\<in>set ws. \<exists>c\<in>set w. \<not> is_space c \<Longrightarrow> length (trimmed ws) = length ws"
proof -
  assume "\<forall>w\<in>set ws. \<exists>c\<in>set w. \<not> is_space c"
  then have "\<forall>w\<in>set ws. py_strip w \<noteq> []" by (simp add: py_strip_eq_Nil)
  then have "filter (\<lambda>c. c \<noteq> []) (map py_strip ws) = map py_strip ws"
    by (simp add: filter_id_conv)
  then show ?thesis by (simp add: trimmed_def)
qed

lemma most_recent_append: "most_recent n (most_recent n xs @ ys) = most_recent n (xs @ ys)"
proof (cases "length xs \<le> n")
  case True
  then show ?thesis by (simp add: most_recent_def)
next
  case False
  then have "length ys + (length xs - n) = length xs + length ys - n" by simp
  then have "drop (length ys) (drop (length xs - n) xs) = drop (length xs + length ys - n) xs"
    by (simp only: drop_drop)
  with False show ?thesis
    by (simp add: most_recent_def)
qed

lemma length_most_recent: "length (most_recent n xs) \<le> n"
  by (simp add: most_recent_def)

lemma most_recent_snoc_nonempty: "0 < n \<Longrightarrow> most_recent n (xs @ [x]) \<noteq> []"
  by (simp add: most_recent_def)

section \<open>The chunker\<close>

declare sentence_search.simps [simp del]

lemma sentence_search_cases:
  assumes "0 \<le> stop" "i < int (length t)"
  shows "(sentence_search t i stop = Inr None \<and>
            (\<forall>k. stop < k \<and> k \<le> i \<longrightarrow> \<not> is_terminal (t ! nat k))) \<or>
         (\<exists>j. stop < j \<and> j \<le> i \<and> is_terminal (t ! nat j) \<and>
            (\<forall>k. j < k \<and> k \<le> i \<longrightarrow> \<not> is_terminal (t ! nat k)) \<and>
            sentence_search t i stop = Inr (Some (j + 1)))"
  using assms
proof (induction t i stop rule: sentence_search.induct)
  case (1 t i stop)
  show ?case
  proof (cases "stop < i")
    case False
    then have "sentence_search t i stop = Inr None"
      by (subst sentence_search.simps) simp
    with False show ?thesis by auto
  next
    case True
    with 1(2,3) have idx: "py_index t i = Inr (t ! nat i)"
      by (simp add: py_index_nat)
    show ?thesis
    proof (cases "is_terminal (t ! nat i)")
      case tm: True
      have "sentence_search t i stop = Inr (Some (i + 1))"
        by (subst sentence_search.simps) (simp add: True idx tm)
      with True tm show ?thesis by auto
    next
      case nt: False
      have eq: "sentence_search t i stop = sentence_search t (i - 1) stop"
        by (subst sentence_search.simps) (simp add: True idx nt)
      have ih: "(sentence_search t (i - 1) stop = Inr None \<and>
            (\<forall>k. stop < k \<and> k \<le> i - 1 \<longrightarrow> \<not> is_terminal (t ! nat k))) \<or>
         (\<exists>j. stop < j \<and> j \<le> i - 1 \<and> is_terminal (t ! nat j) \<and>
            (\<forall>k. j < k \<and> k \<le> i - 1 \<longrightarrow> \<not> is_terminal (t ! nat k)) \<and>
            sentence_search t (i - 1) stop = Inr (Some (j + 1)))"
        using 1(1)[OF True idx nt] 1(2,3) by simp
      have step: "(j < k \<and> k \<le> i - 1 \<longrightarrow> \<not> is_terminal (t ! nat k)) \<Longrightarrow>
                    (j < k \<and> k \<le> i \<longrightarrow> \<not> is_terminal (t ! nat k))" for k j
        using nt by (cases "k = i") auto
      from ih show ?thesis
      proof
        assume a: "sentence_search t (i - 1) stop = Inr None \<and>
            (\<forall>k. stop < k \<and> k \<le> i - 1 \<longrightarrow> \<not> is_terminal (t ! nat k))"
        then have "\<forall>k. stop < k \<and> k \<le> i \<longrightarrow> \<not> is_terminal (t ! nat k)"
          using step by blast
        with a eq show ?thesis by simp
      next
        assume "\<exists>j. stop < j \<and> j \<le> i - 1 \<and> is_terminal (t ! nat j) \<and>
            (\<forall>k. j < k \<and> k \<le> i - 1 \<longrightarrow> \<not> is_terminal (t ! nat k)) \<and>
            sentence_search t (i - 1) stop = Inr (Some (j + 1))"
        then obtain j where j: "stop < j" "j \<le> i - 1" "is_terminal (t ! nat j)"
            "\<forall>k. j < k \<and> k \<le> i - 1 \<longrightarrow> \<not> is_terminal (t ! nat k)"
            "sentence_search t (i - 1) stop = Inr (Some (j + 1))" by blast
        from j(4) have "\<forall>k. j < k \<and> k \<le> i \<longrightarrow> \<not> is_terminal (t ! nat k)"
          using step by blast
        with j eq show ?thesis by (intro disjI2 exI[of _ j]) simp
      qed
    qed
  qed
qed

lemma window_end_cases:
  assumes "0 \<le> start" "0 < cs"
  shows "(\<not> start + cs < int (length t) \<and> window_end t cs start = Inr (start + cs)) \<or>
         (start + cs < int (length t) \<and>
            (\<forall>k. max (start + cs div 2) (start + cs - 100) < k \<and> k \<le> start + cs
                 \<longrightarrow> \<not> is_terminal (t ! nat k)) \<and>
            window_end t cs start = Inr (start + cs)) \<or>
         (start + cs < int (length t) \<and>
            (\<exists>j. max (start + cs div 2) (start + cs - 100) < j \<and> j \<le> start + cs \<and>
                 is_terminal (t ! nat j) \<and>
                 (\<forall>k. j < k \<and> k \<le> start + cs \<longrightarrow> \<not> is_terminal (t ! nat k)) \<and>
                 window_end t cs start = Inr (j + 1)))"
proof (cases "start + cs < int (length t)")
  case False
  then show ?thesis by (simp add: window_end_def)
next
  case True
  from assms have "0 \<le> start + cs div 2"
    by (simp add: pos_imp_zdiv_nonneg_iff)
  then have "0 \<le> max (start + cs div 2) (start + cs - 100)"
    by (simp add: le_max_iff_disj)
  from sentence_search_cases[OF this True] True show ?thesis
    by (auto simp: window_end_def)
qed

lemma window_end_bounds:
  assumes "0 \<le> start" "0 < cs"
  shows "\<exists>en. window_end t cs start = Inr en \<and>
           start + min cs (max (cs div 2) (cs - 100) + 2) \<le> en \<and> en \<le> start + cs + 1 \<and>
           (en \<le> int (length t) \<or> en = start + cs)"
  using window_end_cases[OF assms, of t] by (auto simp: min_def max_def)

lemma window_end_no_terminal:
  assumes "0 \<le> start" "0 < cs" "start + cs < int (length t)"
    "\<forall>k. max (start + cs div 2) (start + cs - 100) < k \<and> k \<le> start + cs
        \<longrightarrow> \<not> is_terminal (t ! nat k)"
  shows "window_end t cs start = Inr (start + cs)"
  using window_end_cases[OF assms(1,2), of t] assms(3,4) by blast

lemma window_end_past_end:
  "\<not> start + cs < int (length t) \<Longrightarrow> window_end t cs start = Inr (start + cs)"
  by (simp add: window_end_def)

lemma window_end_aligned:
  assumes "0 \<le> start" "0 < cs" "start + cs < int (length t)"
    "max (start + cs div 2) (start + cs - 100) < j" "j \<le> start + cs"
    "is_terminal (t ! nat j)"
    "\<forall>k. j < k \<and> k \<le> start + cs \<longrightarrow> \<not> is_terminal (t ! nat k)"
  shows "window_end t cs start = Inr (j + 1)"
proof -
  from window_end_cases[OF assms(1,2), of t] assms(3-6)
  obtain j' where j': "max (start + cs div 2) (start + cs - 100) < j'" "j' \<le> start + cs"
      "is_terminal (t ! nat j')"
      "\<forall>k. j' < k \<and> k \<le> start + cs \<longrightarrow> \<not> is_terminal (t ! nat k)"
      "window_end t cs start = Inr (j' + 1)"
    by blast
  have "\<not> j' < j" using j'(4) assms(5,6) by blast
  moreover have "\<not> j < j'" using assms(7) j'(2,3) by blast
  ultimately have "j' = j" by simp
  with j'(5) show ?thesis by simp
qed

lemma chunk_loop_step:
  assumes "start < int (length t)" "window_end t cs start = Inr en"
  shows "chunk_loop t cs ov start chunks =
           (if int (length t) \<le> en - ov then Some (Inr (chunks @ trimmed [py_slice t start en]))
            else chunk_loop t cs ov (en - ov) (chunks @ trimmed [py_slice t start en]))"
  using assms by (subst chunk_loop.simps) (simp add: Let_def trimmed_def)

lemma chunk_loop_windows:
  assumes ov: "0 \<le> ov" "ov < cs" "ov < max (cs div 2) (cs - 100) + 2"
  shows "s < length t \<Longrightarrow>
     \<exists>ws. chunk_loop t cs ov (int s) chunks = Some (Inr (chunks @ trimmed ws)) \<and> ws \<noteq> [] \<and>
        (\<forall>w\<in>set ws. w \<noteq> [] \<and> sublist w t \<and> int (length w) \<le> cs + 1) \<and>
        hd ws @ concat (map (drop (nat ov)) (tl ws)) = drop s t \<and>
        concat (map (drop (nat ov)) ws) = drop (s + nat ov) t"
proof (induction "length t - s" arbitrary: s chunks rule: less_induct)
  case less
  have cs: "0 < cs" using ov by simp
  obtain en where en: "window_end t cs (int s) = Inr en"
      "int s + min cs (max (cs div 2) (cs - 100) + 2) \<le> en" "en \<le> int s + cs + 1"
    using window_end_bounds[of "int s" cs t] cs by auto
  define e where "e = nat en"
  have "ov < min cs (max (cs div 2) (cs - 100) + 2)" using ov by simp
  with en(2) have lt: "int s + ov < en" by linarith
  with ov(1) have e1: "int e = en" by (simp add: e_def)
  with lt ov(1) have "int (s + nat ov) < int e" by simp
  then have e2: "s + nat ov < e" by (simp only: of_nat_less_iff)
  from e1 en(3) have e3: "int e \<le> int s + cs + 1" by simp
  note e = e1 e2 e3
  define w where "w = take (min e (length t) - s) (drop s t)"
  have slice: "py_slice t (int s) en = w"
    using py_slice_nat[of t s e] e(1) by (simp add: w_def)
  have w: "w \<noteq> []" "sublist w t" "int (length w) \<le> cs + 1"
  proof -
    show "w \<noteq> []" using less(2) e(2) by (simp add: w_def)
    show "sublist w t"
      unfolding w_def by (rule sublist_order.order.trans[OF sublist_take sublist_drop])
    have "length w \<le> e - s" by (simp add: w_def)
    moreover have "int (e - s) \<le> cs + 1" using e(2,3) by linarith
    ultimately show "int (length w) \<le> cs + 1" by linarith
  qed
  have dropw: "drop (nat ov) w @ drop e t = drop (s + nat ov) t"
  proof -
    have "drop (nat ov) w = take (min e (length t) - (s + nat ov)) (drop (s + nat ov) t)"
      by (simp add: w_def drop_take add.commute)
    then show ?thesis using take_drop_glue[of "s + nat ov" e t] e(2) by simp
  qed
  have gluew: "w @ drop e t = drop s t"
    using take_drop_glue[of s e t] e(2) by (simp add: w_def)
  have step: "chunk_loop t cs ov (int s) chunks =
           (if int (length t) \<le> en - ov then Some (Inr (chunks @ trimmed [w]))
            else chunk_loop t cs ov (en - ov) (chunks @ trimmed [w]))"
    using chunk_loop_step[OF _ en(1), of ov chunks] less(2) by (simp add: slice)
  show ?case
  proof (cases "int (length t) \<le> en - ov")
    case True
    then have "length t \<le> e" using ov(1) e(1) by simp
    then have "drop e t = []" by simp
    with gluew dropw have "w = drop s t" "drop (nat ov) w = drop (s + nat ov) t" by simp_all
    with step True w show ?thesis
      by (intro exI[of _ "[w]"]) simp
  next
    case False
    define s' where "s' = e - nat ov"
    have s': "int s' = en - ov" "s < s'" "s' < length t" "s' + nat ov = e"
      using False e ov(1) by (auto simp: s'_def)
    then have "length t - s' < length t - s" using less(2) by simp
    from less(1)[OF this s'(3), of "chunks @ trimmed [w]"]
    obtain ws where ws: "chunk_loop t cs ov (int s') (chunks @ trimmed [w]) =
          Some (Inr ((chunks @ trimmed [w]) @ trimmed ws))" "ws \<noteq> []"
        "\<forall>w\<in>set ws. w \<noteq> [] \<and> sublist w t \<and> int (length w) \<le> cs + 1"
        "concat (map (drop (nat ov)) ws) = drop (s' + nat ov) t"
      by blast
    have "chunk_loop t cs ov (int s) chunks = Some (Inr (chunks @ trimmed (w # ws)))"
      using step False ws(1) s'(1) trimmed_append[of "[w]" ws] by simp
    moreover have "hd (w # ws) @ concat (map (drop (nat ov)) (tl (w # ws))) = drop s t"
      using ws(4) s'(4) gluew by simp
    moreover have "concat (map (drop (nat ov)) (w # ws)) = drop (s + nat ov) t"
      using ws(4) s'(4) dropw by simp
    ultimately show ?thesis using w ws(3)
      by (intro exI[of _ "w # ws"]) simp
  qed
qed

text \<open>
  Claim C1 (termination of the chunker). The claim is that \<open>_chunk_text\<close> returns for
  every text, every \<open>chunk_size > 0\<close> and every \<open>overlap\<close>, also when \<open>overlap\<close> is
  \<open>chunk_size - 1\<close>. The loop has no guard for a window that does not advance. On the
  ten characters \<open>aaaa.aaaaa\<close> with \<open>chunk_size = 6\<close> and \<open>overlap = 5\<close> the first
  window is cut after the full stop at index 4, the next start is \<open>5 - 5 = 0\<close> again,
  and the loop repeats the same iteration for ever, appending the same chunk each time.
\<close>

lemma stuck_window: "window_end stuck_text 6 0 = Inr 5"
  by (simp add: stuck_text_def window_end_def sentence_search.simps py_index_def is_terminal_def cp_def)

lemma stuck_slice: "py_strip (py_slice stuck_text 0 5) = cp ''aaaa.''"
  by (simp add: stuck_text_def py_strip_def py_slice_def py_clamp_def cp_def is_space_def)

lemma stuck_loop:
  assumes "chunk_loop t cs ov start chunks = Some y"
  shows "\<not> (t = stuck_text \<and> cs = 6 \<and> ov = 5 \<and> start = 0)"
proof (rule chunk_loop.raw_induct[where P = "\<lambda>t cs ov start chunks y.
     \<not> (t = stuck_text \<and> cs = 6 \<and> ov = 5 \<and> start = 0)", OF _ assms])
  fix f t cs ov start chunks y
  assume IH: "\<And>t cs ov start chunks y. f t cs ov start chunks = Some y \<Longrightarrow>
     \<not> (t = stuck_text \<and> cs = 6 \<and> ov = 5 \<and> start = 0)"
  and body: "(if start < int (length t) then
        (case window_end t cs start of
           Inl e \<Rightarrow> Some (Inl e)
         | Inr en \<Rightarrow>
             (let chunk = py_strip (py_slice t start en);
                  chunks' = (if chunk \<noteq> [] then chunks @ [chunk] else chunks);
                  start' = en - ov
              in if int (length t) \<le> start' then Some (Inr chunks')
                 else f t cs ov start' chunks'))
      else Some (Inr chunks)) = Some y"
  show "\<not> (t = stuck_text \<and> cs = 6 \<and> ov = 5 \<and> start = 0)"
  proof
    assume a: "t = stuck_text \<and> cs = 6 \<and> ov = 5 \<and> start = 0"
    have len: "int (length stuck_text) = 10" by (simp add: stuck_text_def cp_def)
    have ne: "cp ''aaaa.'' \<noteq> []" by (simp add: cp_def)
    from body a have "f stuck_text 6 5 0 (chunks @ [cp ''aaaa.'']) = Some y"
      by (simp add: stuck_window stuck_slice len ne)
    with IH show False by blast
  qed
qed

text \<open>
  Claim C1, at the failing input: \<open>_chunk_text("aaaa.aaaaa", 6, 5)\<close> does not return.
\<close>

theorem chunk_text_overlap_diverges: "chunk_text stuck_text 6 5 = None"
proof -
  have "chunk_loop stuck_text 6 5 0 [] = None"
    using stuck_loop[of stuck_text 6 5 0 "[]"] by (cases "chunk_loop stuck_text 6 5 0 []") auto
  moreover have "int (length stuck_text) = 10" by (simp add: stuck_text_def cp_def)
  ultimately show ?thesis by (simp add: chunk_text_def)
qed

text \<open>
  An overlap far above the chunk size ends the call in another way: the start becomes
  negative, and the search reads \<open>text[i]\<close> at an index below \<open>-len(text)\<close>, which
  raises \<open>IndexError\<close>.
\<close>

lemma chunk_text_large_overlap_raises:
  "chunk_text (cp ''abcdefghij'') 2 1000 = Some (Inl IndexError)"
  by (simp add: chunk_text_def chunk_loop.simps window_end_def sentence_search.simps
      py_index_def is_terminal_def cp_def py_strip_def py_slice_def py_clamp_def is_space_def)

text \<open>
  With the default parameters, the only ones that the repository passes, the chunker
  returns for every text.
\<close>

lemma chunk_text_default_returns: "\<exists>chunks. chunk_text t 1000 200 = Some (Inr chunks)"
proof (cases "int (length t) \<le> 1000")
  case True
  then show ?thesis by (simp add: chunk_text_def)
next
  case False
  then have "0 < length t" by auto
  from chunk_loop_windows[of 200 1000, OF _ _ _ this, of "[]"] False show ?thesis 
    by (auto simp: chunk_text_def)
qed

text \<open>
  Claim C3 (chunk coverage), as the code has it. Let \<open>len(text) > chunk_size\<close> and
  \<open>0 \<le> overlap < min(chunk_size, max(chunk_size // 2, chunk_size - 100) + 2)\<close>. Then
  \<open>_chunk_text\<close> returns, and its chunks are the stripped forms, the empty ones dropped,
  of consecutive non-empty windows of the text. The windows reconstruct the text exactly
  once the first \<open>overlap\<close> characters of every window after the first are removed.
  Every window, and so every chunk, has at most \<open>chunk_size + 1\<close> characters. When the
  text has no whitespace character the chunks are the windows themselves.
\<close>

theorem chunk_text_coverage:
  assumes "chunk_size < int (length text)" "0 \<le> overlap" "overlap < chunk_size"
    "overlap < max (chunk_size div 2) (chunk_size - 100) + 2"
  shows "\<exists>ws. chunk_text text chunk_size overlap = Some (Inr (trimmed ws)) \<and>
           remove_overlaps (nat overlap) ws = text \<and>
           (\<forall>w\<in>set ws. w \<noteq> [] \<and> sublist w text \<and> int (length w) \<le> chunk_size + 1) \<and>
           (\<forall>c\<in>set (trimmed ws). int (length c) \<le> chunk_size + 1) \<and>
           ((\<forall>c\<in>set text. \<not> is_space c) \<longrightarrow> trimmed ws = ws)"
proof -
  from assms have "0 < int (length text)" by linarith
  then have "0 < length text" by (simp only: of_nat_0_less_iff)
  from chunk_loop_windows[OF assms(2-4) this, of "[]"]
  obtain ws where ws: "chunk_loop text chunk_size overlap 0 [] = Some (Inr (trimmed ws))"
      "ws \<noteq> []"
      "\<forall>w\<in>set ws. w \<noteq> [] \<and> sublist w text \<and> int (length w) \<le> chunk_size + 1"
      "hd ws @ concat (map (drop (nat overlap)) (tl ws)) = text"
    by auto
  have "chunk_text text chunk_size overlap = Some (Inr (trimmed ws))"
    using assms(1) ws(1) by (simp add: chunk_text_def)
  moreover have "remove_overlaps (nat overlap) ws = text"
    using ws(2,4) by (cases ws) (simp_all add: remove_overlaps_def)
  moreover have "\<forall>c\<in>set (trimmed ws). int (length c) \<le> chunk_size + 1"
    using ws(3) by (intro trimmed_lengths) simp
  moreover have "(\<forall>c\<in>set text. \<not> is_space c) \<longrightarrow> trimmed ws = ws"
  proof
    assume ns: "\<forall>c\<in>set text. \<not> is_space c"
    have "\<forall>w\<in>set ws. w \<noteq> [] \<and> (\<forall>c\<in>set w. \<not> is_space c)"
      using ws(3) ns set_mono_sublist by blast
    then show "trimmed ws = ws" by (rule trimmed_id)
  qed
  ultimately show ?thesis using ws(3) by blast
qed

text \<open>Claim C3 on a text of four short sentences, with \<open>chunk_size = 8\<close> and \<open>overlap = 2\<close>.\<close>

theorem chunk_text_coverage_witness:
  "\<exists>ws. chunk_text sentence_text 8 2 = Some (Inr (trimmed ws)) \<and>
      remove_overlaps 2 ws = sentence_text"
proof -
  have "8 < int (length sentence_text)" by (simp add: sentence_text_def cp_def)
  from chunk_text_coverage[OF this, of 2] show ?thesis by auto
qed

text \<open>
  The chunks themselves do not reconstruct the text in general, since \<open>strip\<close> removes
  the whitespace at both ends of a window: with \<open>chunk_size = 4\<close> and \<open>overlap = 1\<close>
  the text \<open>ab  cdef\<close> gives the chunks \<open>ab\<close>, \<open>cde\<close> and \<open>ef\<close>, which have lost both
  spaces.
\<close>

theorem chunk_text_coverage_counterexample:
  "4 < int (length spaced_text) \<and>
   chunk_text spaced_text 4 1 = Some (Inr [cp ''ab'', cp ''cde'', cp ''ef'']) \<and>
   remove_overlaps 1 [cp ''ab'', cp ''cde'', cp ''ef''] \<noteq> spaced_text"
  by (simp add: spaced_text_def chunk_text_def chunk_loop.simps window_end_def
      sentence_search.simps py_index_def
      is_terminal_def cp_def py_strip_def py_slice_def py_clamp_def is_space_def
      remove_overlaps_def)

lemma window_end_2500:
  assumes len: "length t = 2500"
    and w1: "\<forall>k. 900 < k \<and> k \<le> 1000 \<longrightarrow> \<not> is_terminal (t ! k)"
    and w2: "\<forall>k. 1700 < k \<and> k \<le> 1800 \<longrightarrow> \<not> is_terminal (t ! k)"
  shows "window_end t 1000 0 = Inr 1000 \<and> window_end t 1000 800 = Inr 1800"
proof
  have "\<forall>k. max (0 + 1000 div 2) (0 + 1000 - 100) < k \<and> k \<le> 0 + 1000
      \<longrightarrow> \<not> is_terminal (t ! nat k)"
  proof (intro allI impI)
    fix k :: int
    assume "max (0 + 1000 div 2) (0 + 1000 - 100) < k \<and> k \<le> 0 + 1000"
    then have "900 < k \<and> k \<le> 1000" by simp
    then have "900 < nat k \<and> nat k \<le> 1000" by arith
    with w1 show "\<not> is_terminal (t ! nat k)" by blast
  qed
  from window_end_no_terminal[OF _ _ _ this] len
  show "window_end t 1000 0 = Inr 1000" by simp
  have "\<forall>k. max (800 + 1000 div 2) (800 + 1000 - 100) < k \<and> k \<le> 800 + 1000
      \<longrightarrow> \<not> is_terminal (t ! nat k)"
  proof (intro allI impI)
    fix k :: int
    assume "max (800 + 1000 div 2) (800 + 1000 - 100) < k \<and> k \<le> 800 + 1000"
    then have "1700 < k \<and> k \<le> 1800" by simp
    then have "1700 < nat k \<and> nat k \<le> 1800" by arith
    with w2 show "\<not> is_terminal (t ! nat k)" by blast
  qed
  from window_end_no_terminal[OF _ _ _ this] len
  show "window_end t 1000 800 = Inr 1800" by simp
qed

lemma chunk_text_2500:
  assumes len: "length t = 2500"
    and e1: "window_end t 1000 0 = Inr 1000"
    and e2: "window_end t 1000 800 = Inr 1800"
  shows "chunk_text t 1000 200 =
     Some (Inr (trimmed [take 1000 t, take 1000 (drop 800 t), drop 1600 t, drop 2400 t]))"
proof -
  have e3: "window_end t 1000 1600 = Inr 2600"
    using window_end_past_end[of 1600 1000 t] len by simp
  have e4: "window_end t 1000 2400 = Inr 3400"
    using window_end_past_end[of 2400 1000 t] len by simp
  have s1: "py_slice t 0 1000 = take 1000 t"
    using py_slice_nat[of t 0 1000] len by simp
  have s2: "py_slice t 800 1800 = take 1000 (drop 800 t)"
    using py_slice_nat[of t 800 1800] len by simp
  have s3: "py_slice t 1600 2600 = drop 1600 t"
    using py_slice_nat[of t 1600 2600] len by simp
  have s4: "py_slice t 2400 3400 = drop 2400 t"
    using py_slice_nat[of t 2400 3400] len by simp
  have l4: "chunk_loop t 1000 200 2400 c = Some (Inr (c @ trimmed [drop 2400 t]))" for c
    using chunk_loop_step[OF _ e4, of 200 c] len by (simp add: s4)
  have l3: "chunk_loop t 1000 200 1600 c =
      Some (Inr (c @ trimmed [drop 1600 t] @ trimmed [drop 2400 t]))" for c
    using chunk_loop_step[OF _ e3, of 200 c] len by (simp add: s3 l4)
  have l2: "chunk_loop t 1000 200 800 c =
      Some (Inr (c @ trimmed [take 1000 (drop 800 t)] @ trimmed [drop 1600 t] @
        trimmed [drop 2400 t]))" for c
    using chunk_loop_step[OF _ e2, of 200 c] len by (simp add: s2 l3)
  have l1: "chunk_loop t 1000 200 0 [] =
      Some (Inr (trimmed [take 1000 t] @ trimmed [take 1000 (drop 800 t)] @
        trimmed [drop 1600 t] @ trimmed [drop 2400 t]))"
    using chunk_loop_step[OF _ e1, of 200 "[]"] len by (simp add: s1 l2)
  show ?thesis
    using l1 len by (simp add: chunk_text_def trimmed_def)
qed

lemma py_strip_letters: "py_strip (replicate n 97) = replicate n 97"
  by (rule py_strip_no_space) (simp add: is_space_def)

lemma py_strip_blanks: "py_strip (replicate n 32) = []"
  by (simp add: py_strip_eq_Nil is_space_def)

lemma py_strip_padded: "0 < n \<Longrightarrow> py_strip (replicate n 97 @ replicate m 32) = replicate n 97"
proof -
  assume n: "0 < n"
  have a: "dropWhile is_space (replicate n 97 @ replicate m 32) = replicate n 97 @ replicate m 32"
    using n by (cases n) (simp_all add: is_space_def)
  have "dropWhile is_space (replicate m 32 @ replicate n 97) = dropWhile is_space (replicate n 97)"
    by (rule dropWhile_append2) (simp add: is_space_def)
  also have "\<dots> = replicate n 97"
    using n by (cases n) (simp_all add: is_space_def)
  finally have b: "dropWhile is_space (replicate m 32 @ replicate n 97) = replicate n 97" .
  show ?thesis by (simp add: py_strip_def a b)
qed

text \<open>
  Claim C9 (the scenario of 2500 characters), as the code has it. With \<open>chunk_size = 1000\<close>
  and \<open>overlap = 200\<close>, a text of 2500 characters in which no sentence terminator shifts
  a boundary (the first window ends at 1000 and the second at 1800, as they do when the
  indices 901 to 1000 and 1701 to 1800 hold no terminator) gives the stripped forms
  of the four windows \<open>text[0:1000]\<close>, \<open>text[800:1800]\<close>, \<open>text[1600:2500]\<close> and
  \<open>text[2400:2500]\<close>, less the empty ones: exactly four chunks when each of the four
  windows has a character that is not whitespace. And for every text, every
  \<open>chunk_size > 0\<close> and every window with \<open>start \<ge> 0\<close> whose raw end
  \<open>start + chunk_size\<close> lies before the end of the text: when the search window
  \<open>max(start + chunk_size // 2, start + chunk_size - 100) < j \<le> start + chunk_size\<close>
  holds a sentence terminator, and \<open>j\<close> is the index of the last one, the window ends
  at \<open>j + 1\<close>, just after it, and the loop goes on from there. A window whose raw end
  reaches the end of the text is not searched: it ends at \<open>start + chunk_size\<close>, also
  when a terminator lies in that range.
\<close>

theorem chunk_text_2500_windows:
  "(length t = 2500 \<and> window_end t 1000 0 = Inr 1000 \<and> window_end t 1000 800 = Inr 1800
    \<longrightarrow> chunk_text t 1000 200 =
          Some (Inr (trimmed [take 1000 t, take 1000 (drop 800 t), drop 1600 t, drop 2400 t])) \<and>
        ((\<forall>w\<in>set [take 1000 t, take 1000 (drop 800 t), drop 1600 t, drop 2400 t].
             \<exists>c\<in>set w. \<not> is_space c)
         \<longrightarrow> length (trimmed [take 1000 t, take 1000 (drop 800 t), drop 1600 t, drop 2400 t])
               = 4)) \<and>
   (0 \<le> start \<and> 0 < cs \<and> start + cs < int (length u) \<and>
    max (start + cs div 2) (start + cs - 100) < j \<and> j \<le> start + cs \<and>
    is_terminal (u ! nat j) \<and>
    (\<forall>k. j < k \<and> k \<le> start + cs \<longrightarrow> \<not> is_terminal (u ! nat k))
    \<longrightarrow> window_end u cs start = Inr (j + 1) \<and>
        chunk_loop u cs ov start chunks =
          (if int (length u) \<le> j + 1 - ov
           then Some (Inr (chunks @ trimmed [py_slice u start (j + 1)]))
           else chunk_loop u cs ov (j + 1 - ov) (chunks @ trimmed [py_slice u start (j + 1)]))) \<and>
   (\<not> start' + cs' < int (length v) \<longrightarrow> window_end v cs' start' = Inr (start' + cs'))"
proof (intro conjI impI)
  assume a: "length t = 2500 \<and> window_end t 1000 0 = Inr 1000 \<and>
    window_end t 1000 800 = Inr 1800"
  then show "chunk_text t 1000 200 =
          Some (Inr (trimmed [take 1000 t, take 1000 (drop 800 t), drop 1600 t, drop 2400 t]))"
    by (intro chunk_text_2500) simp_all
  assume "\<forall>w\<in>set [take 1000 t, take 1000 (drop 800 t), drop 1600 t, drop 2400 t].
             \<exists>c\<in>set w. \<not> is_space c"
  from trimmed_all_kept[OF this]
  show "length (trimmed [take 1000 t, take 1000 (drop 800 t), drop 1600 t, drop 2400 t]) = 4"
    by simp
next
  assume b: "0 \<le> start \<and> 0 < cs \<and> start + cs < int (length u) \<and>
    max (start + cs div 2) (start + cs - 100) < j \<and> j \<le> start + cs \<and>
    is_terminal (u ! nat j) \<and>
    (\<forall>k. j < k \<and> k \<le> start + cs \<longrightarrow> \<not> is_terminal (u ! nat k))"
  then show we: "window_end u cs start = Inr (j + 1)"
    by (intro window_end_aligned) simp_all
  from b have "start < int (length u)" by linarith
  from chunk_loop_step[OF this we]
  show "chunk_loop u cs ov start chunks =
          (if int (length u) \<le> j + 1 - ov
           then Some (Inr (chunks @ trimmed [py_slice u start (j + 1)]))
           else chunk_loop u cs ov (j + 1 - ov) (chunks @ trimmed [py_slice u start (j + 1)]))" .
next
  assume "\<not> start' + cs' < int (length v)"
  then show "window_end v cs' start' = Inr (start' + cs')"
    by (rule window_end_past_end)
qed

text \<open>
  Claim C9 on 2500 letters, on the window of \<open>aaaa.aaaaa\<close> that ends after the full
  stop, and on the last window of \<open>aaaaaaaaaaa.aa\<close>, which is not searched.
\<close>

theorem chunk_text_2500_windows_witness:
  "chunk_text plain_text 1000 200 =
     Some (Inr [replicate 1000 97, replicate 1000 97, replicate 900 97, replicate 100 97]) \<and>
   window_end stuck_text 6 0 = Inr 5 \<and>
   window_end tail_text 10 5 = Inr 15"
proof -
  have a: "\<forall>k. 4 < k \<and> k \<le> 0 + 6 \<longrightarrow> \<not> is_terminal (stuck_text ! nat k)"
  proof (intro allI impI)
    fix k :: int
    assume "4 < k \<and> k \<le> 0 + 6"
    then have "k = 5 \<or> k = 6" by arith
    then show "\<not> is_terminal (stuck_text ! nat k)"
      by (auto simp: stuck_text_def cp_def is_terminal_def)
  qed
  have b: "is_terminal (stuck_text ! nat 4)"
    by (simp add: stuck_text_def cp_def is_terminal_def)
  have c: "0 + 6 < int (length stuck_text)" by (simp add: stuck_text_def cp_def)
  have d: "trimmed [take 1000 plain_text, take 1000 (drop 800 plain_text),
        drop 1600 plain_text, drop 2400 plain_text] =
      [replicate 1000 97, replicate 1000 97, replicate 900 97, replicate 100 97]"
    by (simp add: trimmed_def plain_text_def py_strip_letters)
  have e: "window_end plain_text 1000 0 = Inr 1000 \<and> window_end plain_text 1000 800 = Inr 1800"
    by (rule window_end_2500) (simp_all add: plain_text_def is_terminal_def)
  have f: "\<not> 5 + 10 < int (length tail_text)" by (simp add: tail_text_def cp_def)
  show ?thesis
    using chunk_text_2500_windows[where t = plain_text and start = 0 and cs = 6
        and u = stuck_text and j = 4 and ov = 5 and chunks = "[]"
        and start' = 5 and cs' = 10 and v = tail_text] a b c d e f
    by (simp add: plain_text_def)
qed

text \<open>
  At a last window the boundary is not moved: in \<open>aaaaaaaaaaa.aa\<close> with
  \<open>chunk_size = 10\<close> the window that starts at 5 has the full stop at index 11, inside
  the range from 11 to 15, and still ends at 15.
\<close>

lemma window_end_tail_not_searched:
  "is_terminal (tail_text ! 11) \<and> window_end tail_text 10 5 = Inr 15"
  by (simp add: tail_text_def cp_def is_terminal_def window_end_def)

text \<open>
  A text of 2500 characters without any sentence terminator can give fewer than four
  chunks: 2400 letters followed by 100 spaces give three, as the last window is blank
  and is dropped.
\<close>

theorem chunk_text_2500_counterexample:
  "length padded_text = 2500 \<and> filter is_terminal padded_text = [] \<and>
   chunk_text padded_text 1000 200 =
     Some (Inr [replicate 1000 97, replicate 1000 97, replicate 800 97])"
proof -
  have len: "length padded_text = 2500" by (simp add: padded_text_def)
  have nt: "\<not> is_terminal c" if "c \<in> set padded_text" for c
    using that by (auto simp: padded_text_def is_terminal_def)
  have f: "filter is_terminal padded_text = []"
    using nt by (simp add: filter_empty_conv)
  have nth: "\<not> is_terminal (padded_text ! k)" if "k \<le> 1800" for k
    using that len by (intro nt nth_mem) simp
  have "chunk_text padded_text 1000 200 =
     Some (Inr (trimmed [take 1000 padded_text, take 1000 (drop 800 padded_text),
        drop 1600 padded_text, drop 2400 padded_text]))"
    using window_end_2500[OF len] by (intro chunk_text_2500[OF len]) (simp_all add: nth)
  also have "trimmed [take 1000 padded_text, take 1000 (drop 800 padded_text),
        drop 1600 padded_text, drop 2400 padded_text] =
      [replicate 1000 97, replicate 1000 97, replicate 800 97]"
    by (simp add: trimmed_def padded_text_def py_strip_letters py_strip_blanks py_strip_padded)
  finally show ?thesis using len f by simp
qed

section \<open>The vector store\<close>

text \<open>
  Claim C4 (a zero vector from the embedding backend). The claim is that \<open>_get_embedding\<close>
  reports a failure when the backend returns the zero vector, and never returns NaN.
  The code has no test of the norm; numpy divides by the zero norm without raising, so
  the \<open>except\<close> branch is not taken and the vector of NaN is returned. Evaluated on
  the zero vector of length 3:
\<close>

theorem get_embedding_zero_vector:
  "get_embedding (zero_embedding vs) t task = Some [NaN, NaN, NaN]"
  by (simp add: get_embedding_def zero_embedding_def)

lemma search_loop_in_range:
  "\<forall>i \<in> set ixs. i < length (documents results) \<and> i < length (metadatas results) \<and>
       i < length (distances results) \<Longrightarrow>
   search_loop results ixs acc = Inr (acc @ map (result_at results) ixs)"
  by (induction ixs arbitrary: acc) (simp_all add: py_index_in_range result_at_def)

text \<open>
  Claim C8 (search). When the embedding of the query fails (the backend raises),
  \<open>search\<close> returns the empty list and raises nothing. When the embedding succeeds and
  the index returns its three lists, as long as each other, \<open>search\<close> returns one result
  for each position, in the order of the index, with the document, the metadata and
  \<open>similarity = 1 - distance\<close> of that position.
\<close>

theorem search_results:
  "(embed_content vs q (cp ''retrieval_query'') = Inl e \<longrightarrow> search vs c q n = Inr []) \<and>
   (embed_content vs q (cp ''retrieval_query'') = Inr v \<and>
    collection_query vs c (map (\<lambda>x. np_divide vs x (np_norm vs v)) v) n = Inr results \<and>
    length (documents results) \<le> length (metadatas results) \<and>
    length (documents results) \<le> length (distances results)
    \<longrightarrow> search vs c q n = Inr (map (result_at results) [0..<length (documents results)]))"
  by (auto simp: search_def get_embedding_def search_loop_in_range)

text \<open>Claim C8 on a failing embedding and on an index with two chunks.\<close>

theorem search_results_witness:
  "search small_index two_chunks [] 5 = Inr [] \<and>
   search small_index two_chunks (cp ''q'') 5 =
     Inr [\<lparr>content = cp ''d1'', metadata = \<lparr>url = cp ''u1'', title = cp ''t1'', description = cp ''e1''\<rparr>,
            similarity = 3/4\<rparr>,
          \<lparr>content = cp ''d2'', metadata = \<lparr>url = cp ''u1'', title = cp ''t2'', description = cp ''e2''\<rparr>,
            similarity = 1/2\<rparr>]"
proof -
  have a: "embed_content small_index [] (cp ''retrieval_query'') = Inl (Raised (cp ''empty''))"
    by (simp add: small_index_def)
  have b: "embed_content small_index (cp ''q'') (cp ''retrieval_query'') = Inr [3, 4]"
    by (simp add: small_index_def cp_def)
  show ?thesis
    using search_results[where vs = small_index and q = "[]" and e = "Raised (cp ''empty'')" and c = two_chunks
        and n = 5]
      search_results[where vs = small_index and q = "cp ''q''" and v = "[3, 4]" and c = two_chunks
        and n = 5 and results = "\<lparr>documents = two_chunks,
         metadatas = [\<lparr>url = cp ''u1'', title = cp ''t1'', description = cp ''e1''\<rparr>,
                      \<lparr>url = cp ''u1'', title = cp ''t2'', description = cp ''e2''\<rparr>],
         distances = [1/4, 1/2]\<rparr>"] a b
    by (simp add: small_index_def two_chunks_def result_at_def upt_conv_Cons)
qed

section \<open>The session memory\<close>

lemma save_to_session_upd:
  "save_to_session sess sid q a now =
     sess(sid \<mapsto> most_recent 10 (stored_turns sess sid @ [\<lparr>question = q, answer = a, timestamp = now\<rparr>]))"
  by (auto simp: save_to_session_def stored_turns_def Let_def py_slice_from_neg[of 10, simplified] most_recent_def
      split: option.splits)

lemma stored_save:
  "stored_turns (save_to_session sess sid q a now) sid' =
     (if sid' = sid
      then most_recent 10 (stored_turns sess sid @ [\<lparr>question = q, answer = a, timestamp = now\<rparr>])
      else stored_turns sess sid')"
  by (simp add: save_to_session_upd) (simp add: stored_turns_def)

lemma stored_run:
  "stored_turns (run_appends sess cs) sid =
     (if appended_turns sid cs = [] then stored_turns sess sid
      else most_recent 10 (stored_turns sess sid @ appended_turns sid cs))"
proof (induction cs arbitrary: sess)
  case Nil
  then show ?case by (simp add: appended_turns_def)
next
  case (Cons c cs)
  show ?case
  proof (cases "call_session c = sid")
    case True
    then show ?thesis
      by (simp add: Cons stored_save most_recent_append) (simp add: appended_turns_def)
  next
    case False
    then show ?thesis
      by (simp add: Cons stored_save) (simp add: appended_turns_def)
  qed
qed

lemma suffix_last_messages: "suffix (last_messages turns m) turns"
  by (simp add: last_messages_def py_slice_from_def suffix_drop)

lemma get_session_history_lines:
  "get_session_history sess sid m =
     py_join [10] (history_lines (last_messages (stored_turns sess sid) m))"
  by (simp add: get_session_history_def history_lines_def stored_turns_def last_messages_def
      py_slice_from_def split: option.splits)

text \<open>
  Claim C5 (the session memory is a bounded queue). After any sequence of appends to an
  empty memory, the turn list of every session is the last 10 of the turns appended to
  that session, in the order of their insertion, and so holds at most 10 turns. The
  messages that \<open>_get_session_history\<close> renders are a suffix of that list, at most 10 of
  them, the oldest first.
\<close>

theorem session_bounded_fifo:
  "stored_turns (run_appends Map.empty cs) sid = most_recent 10 (appended_turns sid cs) \<and>
   length (stored_turns (run_appends Map.empty cs) sid) \<le> 10 \<and>
   suffix (last_messages (stored_turns (run_appends Map.empty cs) sid) m)
     (most_recent 10 (appended_turns sid cs)) \<and>
   length (last_messages (stored_turns (run_appends Map.empty cs) sid) m) \<le> 10 \<and>
   get_session_history (run_appends Map.empty cs) sid m =
     py_join [10] (history_lines (last_messages (most_recent 10 (appended_turns sid cs)) m))"
proof -
  have s: "stored_turns (run_appends Map.empty cs) sid = most_recent 10 (appended_turns sid cs)"
    by (simp add: stored_run) (simp add: stored_turns_def most_recent_def)
  have l: "length (last_messages (most_recent 10 (appended_turns sid cs)) m)
             \<le> length (most_recent 10 (appended_turns sid cs))"
    by (rule suffix_length_le[OF suffix_last_messages])
  show ?thesis
    unfolding get_session_history_lines s
    using l length_most_recent[of 10 "appended_turns sid cs"] suffix_last_messages
    by auto
qed

text \<open>Claim C5 on fifteen appends to one session: the turns 5 to 14 remain.\<close>

theorem session_bounded_fifo_witness:
  "stored_turns (run_appends Map.empty fifteen_appends) (cp ''s'') =
     map (\<lambda>n. \<lparr>question = str_of_nat n, answer = cp ''a'', timestamp = real n\<rparr>) [5..<15] \<and>
   length (stored_turns (run_appends Map.empty fifteen_appends) (cp ''s'')) = 10"
  using session_bounded_fifo[of fifteen_appends "cp ''s''" 4]
  by (simp add: fifteen_appends_def appended_turns_def most_recent_def comp_def drop_map)

section \<open>Source citations\<close>

lemma extract_loop_unseen:
  "extract_loop rs acc seen = acc @ map citation (unseen seen rs)"
  by (induction rs arbitrary: acc seen) (simp_all add: Let_def citation_def)

lemma unseen_urls:
  "set (map (\<lambda>r. url (metadata r)) (unseen seen rs)) = set (map (\<lambda>r. url (metadata r)) rs) - seen"
  by (induction rs arbitrary: seen) auto

lemma unseen_distinct: "distinct (map (\<lambda>r. url (metadata r)) (unseen seen rs))"
proof (induction rs arbitrary: seen)
  case Nil
  then show ?case by simp
next
  case (Cons r rs)
  have "url (metadata r) \<notin> set (map (\<lambda>r. url (metadata r)) (unseen (insert (url (metadata r)) seen) rs))"
    unfolding unseen_urls by simp
  with Cons show ?case by simp
qed

lemma map_filter_pred_eq: "(\<And>x. P x = Q x) \<Longrightarrow> map f (filter P xs) = map f (filter Q xs)"
proof -
  assume "\<And>x. P x = Q x"
  then have "P = Q" by (rule ext)
  then show ?thesis by simp
qed

lemma unseen_index:
  "unseen seen rs =
     map (\<lambda>i. rs ! i)
       (filter (\<lambda>i. url (metadata (rs ! i)) \<notin> seen \<union> set (map (\<lambda>r. url (metadata r)) (take i rs)))
          [0..<length rs])"
proof (induction rs arbitrary: seen)
  case Nil
  then show ?case by simp
next
  case (Cons r rs)
  have upt: "[0..<length (r # rs)] = 0 # map Suc [0..<length rs]"
    by (simp add: upt_conv_Cons map_Suc_upt del: upt_Suc)
  show ?case
    unfolding upt by (auto simp add: Cons filter_map comp_def intro!: map_filter_pred_eq)
qed

lemma src_url_citation: "map src_url (map citation rs) = map (\<lambda>r. url (metadata r)) rs"
  by (simp add: citation_def)

text \<open>
  Claim C6 (source citations). The citations that \<open>_extract_sources\<close> returns are the
  citations of the results whose url does not occur earlier in the list, in the order of
  the list: every url of the results occurs exactly once among them, with the title, url
  and description of its first occurrence.
\<close>

theorem extract_sources_first_occurrence:
  "extract_sources rs = map citation (first_occurrences rs) \<and>
   distinct (map src_url (extract_sources rs)) \<and>
   set (map src_url (extract_sources rs)) = set (map (\<lambda>r. url (metadata r)) rs)"
proof -
  have e: "extract_sources rs = map citation (unseen {} rs)"
    by (simp add: extract_sources_def extract_loop_unseen)
  have "unseen {} rs = first_occurrences rs"
    by (simp add: unseen_index first_occurrences_def)
  moreover have "distinct (map src_url (extract_sources rs))"
    unfolding e src_url_citation by (rule unseen_distinct)
  moreover have "set (map src_url (extract_sources rs)) = set (map (\<lambda>r. url (metadata r)) rs)"
    unfolding e src_url_citation unseen_urls by simp
  ultimately show ?thesis using e by simp
qed

text \<open>Claim C6 on three results, the third with the url of the first.\<close>

theorem extract_sources_first_occurrence_witness:
  "extract_sources [ex_result (cp ''u1'') (cp ''a''), ex_result (cp ''u2'') (cp ''b''),
                    ex_result (cp ''u1'') (cp ''c'')]
   = [\<lparr>src_title = cp ''a'', src_url = cp ''u1'', src_description = cp ''d''\<rparr>,
      \<lparr>src_title = cp ''b'', src_url = cp ''u2'', src_description = cp ''d''\<rparr>]"
  using extract_sources_first_occurrence[of "[ex_result (cp ''u1'') (cp ''a''), ex_result (cp ''u2'') (cp ''b''),
                    ex_result (cp ''u1'') (cp ''c'')]"]
  by (simp add: first_occurrences_def citation_def ex_result_def cp_def upt_conv_Cons)

section \<open>Answering a question\<close>

lemma get_answer_eq:
  "get_answer vs generate now s q sid n =
     (s\<lparr>sessions := save_to_session (sessions s) sid q (fst (answer_of vs generate s q sid n)) now\<rparr>,
      answer_of vs generate s q sid n)"
  by (simp add: get_answer_def get_answer_try_def answer_of_def request_prompt_def Let_def
      split: sum.splits)

lemma is_first_message_stored: "is_first_message sess sid \<longleftrightarrow> stored_turns sess sid = []"
  by (simp add: is_first_message_def stored_turns_def split: option.splits)

lemma get_answer_sessions:
  "sessions (fst (get_answer vs generate now s q sid n)) =
     save_to_session (sessions s) sid q (fst (snd (get_answer vs generate now s q sid n))) now"
  by (simp add: get_answer_eq)

lemma get_answer_collection:
  "collection (fst (get_answer vs generate now s q sid n)) = collection s"
  by (simp add: get_answer_eq)

lemma small_index_search:
  "search small_index two_chunks (cp ''q'') 5 =
     Inr [\<lparr>content = cp ''d1'', metadata = \<lparr>url = cp ''u1'', title = cp ''t1'', description = cp ''e1''\<rparr>,
            similarity = 3/4\<rparr>,
          \<lparr>content = cp ''d2'', metadata = \<lparr>url = cp ''u1'', title = cp ''t2'', description = cp ''e2''\<rparr>,
            similarity = 1/2\<rparr>]"
  by (simp add: search_def get_embedding_def small_index_def two_chunks_def py_index_def
      upt_conv_Cons cp_def)

text \<open>
  Claim C2 (\<open>get_answer\<close> always answers and records one turn). Every call returns a
  pair of an answer and a list of sources, and leaves the turn list of its session as
  the last 10 of the old list followed by one new turn, made of the question, the
  returned answer and the clock value. When the search or the generative model raises,
  the answer is the error prefix followed by the message of the exception, and the list
  of sources is empty; when the search finds nothing, the answer is the fixed one and
  the list of sources is empty; otherwise the answer is the stripped text of the model
  and the sources are those extracted from the search results.
\<close>

theorem get_answer_always_answers:
  "\<exists>a srcs.
     get_answer vs generate now s q sid n =
       (s\<lparr>sessions := (sessions s)(sid \<mapsto>
            most_recent 10 (stored_turns (sessions s) sid @
              [\<lparr>question = q, answer = a, timestamp = now\<rparr>]))\<rparr>, a, srcs) \<and>
     (\<forall>e. search vs (collection s) q n = Inl e \<longrightarrow> a = error_prefix @ exn_str e \<and> srcs = []) \<and>
     (search vs (collection s) q n = Inr [] \<longrightarrow> a = no_info_answer \<and> srcs = []) \<and>
     (\<forall>rs e. search vs (collection s) q n = Inr rs \<and> rs \<noteq> [] \<and>
         generate (request_prompt (sessions s) q sid rs) = Inl e
         \<longrightarrow> a = error_prefix @ exn_str e \<and> srcs = []) \<and>
     (\<forall>rs response_text. search vs (collection s) q n = Inr rs \<and> rs \<noteq> [] \<and>
         generate (request_prompt (sessions s) q sid rs) = Inr response_text
         \<longrightarrow> a = py_strip response_text \<and> srcs = extract_sources rs)"
proof -
  obtain a srcs where r: "answer_of vs generate s q sid n = (a, srcs)"
    by (cases "answer_of vs generate s q sid n")
  have "get_answer vs generate now s q sid n =
       (s\<lparr>sessions := (sessions s)(sid \<mapsto>
            most_recent 10 (stored_turns (sessions s) sid @
              [\<lparr>question = q, answer = a, timestamp = now\<rparr>]))\<rparr>, a, srcs)"
    by (simp add: get_answer_eq r save_to_session_upd)
  moreover have "\<forall>e. search vs (collection s) q n = Inl e \<longrightarrow> a = error_prefix @ exn_str e \<and> srcs = []"
    using r by (auto simp: answer_of_def)
  moreover have "search vs (collection s) q n = Inr [] \<longrightarrow> a = no_info_answer \<and> srcs = []"
    using r by (auto simp: answer_of_def)
  moreover have "\<forall>rs e. search vs (collection s) q n = Inr rs \<and> rs \<noteq> [] \<and>
         generate (request_prompt (sessions s) q sid rs) = Inl e
         \<longrightarrow> a = error_prefix @ exn_str e \<and> srcs = []"
    using r by (auto simp: answer_of_def)
  moreover have "\<forall>rs response_text. search vs (collection s) q n = Inr rs \<and> rs \<noteq> [] \<and>
         generate (request_prompt (sessions s) q sid rs) = Inr response_text
         \<longrightarrow> a = py_strip response_text \<and> srcs = extract_sources rs"
    using r by (auto simp: answer_of_def)
  ultimately show ?thesis by blast
qed

text \<open>Claim C2 on a call whose generative model fails.\<close>

theorem get_answer_always_answers_witness:
  "get_answer small_index failing_model 7 (init_state two_chunks) (cp ''q'') (cp ''s'') 5 =
     (\<lparr>sessions = [cp ''s'' \<mapsto> [\<lparr>question = cp ''q'', answer = error_prefix @ cp ''timeout'',
                                   timestamp = 7\<rparr>]],
       collection = two_chunks\<rparr>,
      error_prefix @ cp ''timeout'', [])"
proof -
  from get_answer_always_answers[of small_index failing_model 7 "init_state two_chunks" "cp ''q''" "cp ''s''" 5]
  obtain a srcs where g: "get_answer small_index failing_model 7 (init_state two_chunks) (cp ''q'') (cp ''s'') 5 =
       ((init_state two_chunks)\<lparr>sessions := (sessions (init_state two_chunks))(cp ''s'' \<mapsto>
            most_recent 10 (stored_turns (sessions (init_state two_chunks)) (cp ''s'') @
              [\<lparr>question = cp ''q'', answer = a, timestamp = 7\<rparr>]))\<rparr>, a, srcs)"
    and f: "\<forall>rs e. search small_index (collection (init_state two_chunks)) (cp ''q'') 5 = Inr rs \<and> rs \<noteq> [] \<and>
         failing_model (request_prompt (sessions (init_state two_chunks)) (cp ''q'') (cp ''s'') rs) = Inl e
         \<longrightarrow> a = error_prefix @ exn_str e \<and> srcs = []"
    by blast
  have "a = error_prefix @ cp ''timeout'' \<and> srcs = []"
    using f small_index_search by (simp add: init_state_def failing_model_def)
  with g show ?thesis
    by (simp add: init_state_def stored_turns_def most_recent_def)
qed

text \<open>
  Claim C10 (frame of \<open>get_answer\<close>). A call for one session leaves the turn list of
  every other session as it was, and leaves the contents of the vector index as they
  were, on every path.
\<close>

theorem get_answer_frame:
  "(sid' \<noteq> sid \<longrightarrow>
      sessions (fst (get_answer vs generate now s q sid n)) sid' = sessions s sid') \<and>
   collection (fst (get_answer vs generate now s q sid n)) = collection s"
  by (simp add: get_answer_eq save_to_session_upd)

text \<open>Claim C10 on a call for one session while another session has a turn.\<close>

theorem get_answer_frame_witness:
  "sessions (fst (get_answer small_index failing_model 7 other_session (cp ''q'') (cp ''s'') 5))
     (cp ''other'') = Some [\<lparr>question = cp ''q0'', answer = cp ''a0'', timestamp = 1\<rparr>] \<and>
   collection (fst (get_answer small_index failing_model 7 other_session (cp ''q'') (cp ''s'') 5))
     = two_chunks"
  using get_answer_frame[of "cp ''other''" "cp ''s''" small_index failing_model 7 other_session
      "cp ''q''" 5]
  by (simp add: other_session_def cp_def)

lemma first_after_get_answer:
  "is_first_message (sessions (fst (get_answer vs generate now s q sid n))) sid' \<longleftrightarrow>
     is_first_message (sessions s) sid' \<and> sid' \<noteq> sid"
  by (simp add: get_answer_sessions is_first_message_stored stored_save most_recent_snoc_nonempty)

lemma first_after_run:
  "is_first_message (sessions (run_requests s rs)) sid \<longleftrightarrow>
     is_first_message (sessions s) sid \<and> sid \<notin> set (map req_session rs)"
  by (induction rs arbitrary: s) (auto simp: first_after_get_answer)

lemma run_requests_collection: "collection (run_requests s rs) = collection s"
  by (induction rs arbitrary: s) (simp_all add: get_answer_collection)

lemma init_state_first: "is_first_message (sessions (init_state c)) sid"
  by (simp add: init_state_def is_first_message_def)

lemma get_answer_flag_eq:
  "get_answer_flag vs generate now s q sid n =
     (case search vs (collection s) q n of
        Inl e \<Rightarrow> None
      | Inr results \<Rightarrow>
          if results = [] then None else Some (is_first_message (sessions s) sid))"
  by (simp add: get_answer_flag_def get_answer_try_def Let_def split: sum.splits)

lemma request_flag_eq:
  "request_flag (init_state c) rs i =
     (case search (req_vectorstore (rs ! i)) c (req_question (rs ! i))
             (req_max_sources (rs ! i)) of
        Inl e \<Rightarrow> None
      | Inr results \<Rightarrow>
          if results = [] then None
          else Some (req_session (rs ! i) \<notin> set (map req_session (take i rs))))"
proof -
  have f: "is_first_message (sessions (run_requests (init_state c) (take i rs)))
             (req_session (rs ! i)) =
           (req_session (rs ! i) \<notin> set (map req_session (take i rs)))"
    by (simp add: first_after_run init_state_first)
  have c: "collection (run_requests (init_state c) (take i rs)) = c"
    by (simp add: run_requests_collection init_state_def)
  show ?thesis
    unfolding request_flag_def Let_def get_answer_flag_eq f c ..
qed

text \<open>
  Claim C7 (the first-message flag), as the code has it. \<open>get_answer\<close> computes the flag
  only on a call whose search returns at least one result: a call whose retrieval is
  empty, or whose search raises, leaves the \<open>try\<close> block before the flag is assigned,
  though it records a turn. In every sequence of calls that starts with an empty memory,
  the flag of the \<open>i\<close>-th call, when it is computed, is true exactly when no earlier
  call was for the same session, and the flag of no later call for that session is true.
  So the flag is true on at most one call for each session: on its first call, when the
  retrieval of that call is not empty, and on no call otherwise.
\<close>

theorem first_message_flag_computed:
  assumes "i < length rs"
  shows "request_flag (init_state c) rs i =
           (case search (req_vectorstore (rs ! i)) c (req_question (rs ! i))
                   (req_max_sources (rs ! i)) of
              Inl e \<Rightarrow> None
            | Inr results \<Rightarrow>
                if results = [] then None
                else Some (req_session (rs ! i) \<notin> set (map req_session (take i rs)))) \<and>
         (\<forall>j. i < j \<and> j < length rs \<and> req_session (rs ! j) = req_session (rs ! i)
              \<longrightarrow> request_flag (init_state c) rs j \<noteq> Some True)"
proof (intro conjI allI impI)
  show "request_flag (init_state c) rs i =
           (case search (req_vectorstore (rs ! i)) c (req_question (rs ! i))
                   (req_max_sources (rs ! i)) of
              Inl e \<Rightarrow> None
            | Inr results \<Rightarrow>
                if results = [] then None
                else Some (req_session (rs ! i) \<notin> set (map req_session (take i rs))))"
    by (rule request_flag_eq)
next
  fix j
  assume j: "i < j \<and> j < length rs \<and> req_session (rs ! j) = req_session (rs ! i)"
  then have "rs ! i \<in> set (take j rs)"
    using assms by (metis in_set_conv_nth length_take min.absorb2 nth_take order_less_imp_le)
  then have "req_session (rs ! j) \<in> set (map req_session (take j rs))"
    using j by force
  then show "request_flag (init_state c) rs j \<noteq> Some True"
    by (simp add: request_flag_eq split: sum.splits)
qed

text \<open>
  Claim C7 on two calls for one session, both with two results: the flag is true on the
  first call and on no later one.
\<close>

theorem first_message_flag_computed_witness:
  "request_flag (init_state two_chunks) asked_twice 0 = Some True \<and>
   request_flag (init_state two_chunks) asked_twice 1 \<noteq> Some True"
proof -
  have l: "0 < length asked_twice" by (simp add: asked_twice_def)
  have s: "search (req_vectorstore (asked_twice ! 0)) two_chunks (req_question (asked_twice ! 0))
             (req_max_sources (asked_twice ! 0)) = search small_index two_chunks (cp ''q'') 5"
    by (simp add: asked_twice_def)
  have j: "0 < (1::nat) \<and> 1 < length asked_twice \<and>
           req_session (asked_twice ! 1) = req_session (asked_twice ! 0)"
    by (simp add: asked_twice_def)
  from first_message_flag_computed[OF l, of two_chunks] j
  show ?thesis
    unfolding s small_index_search by simp
qed

text \<open>
  The flag is not true on exactly one call of every session: when the first call of a
  session has an empty retrieval, that call returns the fixed answer and records its turn
  without computing the flag, and the flag of the next call is false.
\<close>

theorem first_message_flag_counterexample:
  "request_flag (init_state two_chunks) two_requests 0 = None \<and>
   request_flag (init_state two_chunks) two_requests 1 = Some False"
proof -
  have a: "search small_index two_chunks [] 5 = Inr []"
    by (simp add: search_def get_embedding_def small_index_def)
  have "request_flag (init_state two_chunks) two_requests 0 = None"
    unfolding request_flag_eq by (simp add: two_requests_def a)
  moreover have "request_flag (init_state two_chunks) two_requests 1 = Some False"
    unfolding request_flag_eq by (simp add: two_requests_def small_index_search)
  ultimately show ?thesis by simp
qed

end
